theory Spec2Isabelle
  imports Complex_Main "HOL-Library.List_Lexorder"
begin

unbundle bit_operations_syntax

section \<open>JavaScript values\<close>

text \<open>
  A JavaScript string is a sequence of UTF-16 code units; a code unit is an integer
  \<open>0 \<le> c < 65536\<close>.  \<open>js\<close> writes an ASCII literal of the source as such a sequence.
\<close>

type_synonym jsstring = "int list"

definition js :: "string \<Rightarrow> jsstring" where
  "js s = map of_char s"

text \<open>
  Numbers are IEEE doubles: every finite double is a rational, and the handlers only test
  numbers for truthiness and integrality.
\<close>

datatype jsnum = Finite rat | PosInfinity | NegInfinity | NaN

datatype jsval =
    JUndefined
  | JNull
  | JBool bool
  | JNumber jsnum
  | JString jsstring
  | JDate int
  | JArray "jsval list"
  | JObject "(jsstring \<times> jsval) list"

datatype js_error = TypeError | RangeError | SyntaxError | URIError | StorageError

definition num :: "int \<Rightarrow> jsval" where
  "num n = JNumber (Finite (of_int n))"

text \<open>\<open>!v\<close> is \<open>\<not> truthy v\<close>.\<close>

fun truthy :: "jsval \<Rightarrow> bool" where
  "truthy JUndefined = False"
| "truthy JNull = False"
| "truthy (JBool b) = b"
| "truthy (JNumber n) = (n \<noteq> Finite 0 \<and> n \<noteq> NaN)"
| "truthy (JString s) = (s \<noteq> [])"
| "truthy (JDate t) = True"
| "truthy (JArray xs) = True"
| "truthy (JObject ps) = True"

text \<open>
  Property access \<open>v.k\<close> and destructuring \<open>const { k } = v\<close>: a TypeError on
  \<open>undefined\<close> and \<open>null\<close>, the own property of an object, \<open>undefined\<close> otherwise.  The
  property names the handlers read (\<open>type\<close>, \<open>userId\<close>, \<open>content\<close>, \<open>roomId\<close>,
  \<open>initData\<close>, \<open>id\<close>, \<open>username\<close>) are not inherited from any prototype.
\<close>

fun get_prop :: "jsval \<Rightarrow> jsstring \<Rightarrow> js_error + jsval" where
  "get_prop JUndefined k = Inl TypeError"
| "get_prop JNull k = Inl TypeError"
| "get_prop (JObject ps) k = Inr (case map_of ps k of None \<Rightarrow> JUndefined | Some v \<Rightarrow> v)"
| "get_prop v k = Inr JUndefined"

text \<open>\<open>String.prototype.trim\<close>: white space and line terminators of ECMAScript.\<close>

definition is_js_whitespace :: "int \<Rightarrow> bool" where
  "is_js_whitespace c =
     (c \<in> set [9, 10, 11, 12, 13, 32, 160, 5760, 8232, 8233, 8239, 8287, 12288, 65279]
      \<or> (8192 \<le> c \<and> c \<le> 8202))"

definition js_trim :: "jsstring \<Rightarrow> jsstring" where
  "js_trim s = rev (dropWhile is_js_whitespace (rev (dropWhile is_js_whitespace s)))"

section \<open>Effects: a store that is threaded through, and exceptions\<close>

text \<open>
  An \<open>await\<close>ed call either throws or returns, and it may change the state in both cases.
\<close>

type_synonym ('a, 's) io = "'s \<Rightarrow> (js_error + 'a) \<times> 's"

definition ret :: "'a \<Rightarrow> ('a, 's) io" where
  "ret x = (\<lambda>s. (Inr x, s))"

definition throw :: "js_error \<Rightarrow> ('a, 's) io" where
  "throw e = (\<lambda>s. (Inl e, s))"

definition bind_io :: "('a, 's) io \<Rightarrow> ('a \<Rightarrow> ('b, 's) io) \<Rightarrow> ('b, 's) io" where
  "bind_io m f = (\<lambda>s. case m s of (Inl e, s') \<Rightarrow> (Inl e, s') | (Inr x, s') \<Rightarrow> f x s')"

definition lift_result :: "js_error + 'a \<Rightarrow> ('a, 's) io" where
  "lift_result r = (\<lambda>s. (r, s))"

text \<open>\<open>try { body } catch (error) { handler }\<close> for a handler that does not throw.\<close>

definition try_catch :: "(unit, 's) io \<Rightarrow> (js_error \<Rightarrow> 's \<Rightarrow> 's) \<Rightarrow> 's \<Rightarrow> 's" where
  "try_catch body handler s = (case body s of (Inl e, s') \<Rightarrow> handler e s' | (Inr u, s') \<Rightarrow> s')"

section \<open>The persistence layer\<close>

text \<open>
  \<open>./storage\<close> is not among the sources.  The handlers are modelled for every
  implementation of its interface: a record of operations over a database state \<open>'db\<close>,
  each of which may throw.
\<close>

record user =
  user_id :: int
  tgId :: int
  username :: jsval
  anonName :: jsstring
  status :: jsstring
  user_createdAt :: jsval

record insert_user =
  new_tgId :: int
  new_username :: jsval
  new_anonName :: jsstring
  new_status :: jsstring

record room =
  room_id :: int

record message =
  message_id :: int
  content :: jsstring
  message_userId :: "int option"
  message_roomId :: jsval
  message_createdAt :: jsval
  message_user :: "user option"

record insert_message =
  new_content :: jsstring
  new_userId :: "int option"
  new_roomId :: jsval

record 'db storage =
  getUserById :: "jsval \<Rightarrow> (user option, 'db) io"
  getUserByTgId :: "int \<Rightarrow> (user option, 'db) io"
  createUser :: "insert_user \<Rightarrow> (user, 'db) io"
  getOrCreateGlobalRoom :: "(room, 'db) io"
  getMessagesByRoomId :: "int \<Rightarrow> int \<Rightarrow> (message list, 'db) io"
  createMessage :: "insert_message \<Rightarrow> (message, 'db) io"

section \<open>The WebSocket server (src/server/websocket.ts)\<close>

text \<open>
  \<open>AuthenticatedWebSocket\<close>: the socket's \<open>readyState\<close>, the two optional fields the
  handlers set, and the frames handed to \<open>ws.send\<close>, oldest first (each frame is the
  object given to \<open>JSON.stringify\<close>).
\<close>

record ws =
  readyState :: nat
  userId :: "int option"
  userStatus :: "jsstring option"
  sent :: "jsval list"

definition OPEN :: nat where
  "OPEN = 1"

text \<open>\<open>wss.clients\<close> and the database.  A session is named by its position in \<open>clients\<close>.\<close>

record 'db world =
  clients :: "ws list"
  db :: 'db

definition ws_send :: "jsval \<Rightarrow> ws \<Rightarrow> ws" where
  "ws_send frame c = c\<lparr>sent := sent c @ [frame]\<rparr>"

definition send_to :: "nat \<Rightarrow> jsval \<Rightarrow> 'db world \<Rightarrow> 'db world" where
  "send_to i frame w = w\<lparr>clients := (clients w)[i := ws_send frame (clients w ! i)]\<rparr>"

text \<open>\<open>ws.send(JSON.stringify(frame))\<close> and reading \<open>ws\<close>, as steps of a handler.\<close>

definition send :: "nat \<Rightarrow> jsval \<Rightarrow> (unit, 'db world) io" where
  "send i frame = (\<lambda>w. (Inr (), send_to i frame w))"

definition the_ws :: "nat \<Rightarrow> (ws, 'db world) io" where
  "the_ws i = (\<lambda>w. (Inr (clients w ! i), w))"

definition storage_call :: "('a, 'db) io \<Rightarrow> ('a, 'db world) io" where
  "storage_call m = (\<lambda>w. case m (db w) of (r, d) \<Rightarrow> (r, w\<lparr>db := d\<rparr>))"

definition event :: "string \<Rightarrow> string \<Rightarrow> jsval" where
  "event ty msg = JObject [(js ''type'', JString (js ty)), (js ''message'', JString (js msg))]"

text \<open>\<open>ws.userId\<close> as a condition: a number that is not 0.\<close>

definition userId_truthy :: "int option \<Rightarrow> bool" where
  "userId_truthy u = (case u of None \<Rightarrow> False | Some n \<Rightarrow> n \<noteq> 0)"

definition approved :: "ws \<Rightarrow> bool" where
  "approved c = (userId_truthy (userId c) \<and> userStatus c = Some (js ''approved''))"

text \<open>\<open>content?.trim()\<close>: \<open>undefined\<close> on a nullish \<open>content\<close>, a TypeError on a value
  that has no \<open>trim\<close> method.\<close>

fun optional_trim :: "jsval \<Rightarrow> js_error + jsval" where
  "optional_trim JUndefined = Inr JUndefined"
| "optional_trim JNull = Inr JUndefined"
| "optional_trim (JString s) = Inr (JString (js_trim s))"
| "optional_trim v = Inl TypeError"

definition public_user :: "user option \<Rightarrow> jsval" where
  "public_user u =
     JObject [(js ''id'', case u of None \<Rightarrow> JUndefined | Some x \<Rightarrow> num (user_id x)),
              (js ''anonName'', case u of None \<Rightarrow> JUndefined | Some x \<Rightarrow> JString (anonName x))]"

definition new_message :: "message \<Rightarrow> user option \<Rightarrow> jsval" where
  "new_message m u =
     JObject [(js ''type'', JString (js ''new_message'')),
              (js ''message'',
               JObject [(js ''id'', num (message_id m)),
                        (js ''content'', JString (content m)),
                        (js ''createdAt'', message_createdAt m),
                        (js ''user'', public_user u)])]"

text \<open>The loop over \<open>wss.clients\<close> (lines 167 to 173).\<close>

definition broadcast :: "jsval \<Rightarrow> ws list \<Rightarrow> ws list" where
  "broadcast broadcastData cs =
     map (\<lambda>client.
            if readyState client = OPEN \<and> userId_truthy (userId client)
               \<and> userStatus client = Some (js ''approved'')
            then ws_send broadcastData client else client) cs"

definition broadcast_all :: "jsval \<Rightarrow> (unit, 'db world) io" where
  "broadcast_all broadcastData = (\<lambda>w. (Inr (), w\<lparr>clients := broadcast broadcastData (clients w)\<rparr>))"

text \<open>The \<open>try\<close> block of \<open>handleSendMessage\<close> (lines 124 to 173).\<close>

definition handleSendMessage_try :: "'db storage \<Rightarrow> nat \<Rightarrow> jsval \<Rightarrow> (unit, 'db world) io" where
  "handleSendMessage_try S i msg =
     bind_io (the_ws i) (\<lambda>ws.
       if \<not> userId_truthy (userId ws) \<or> userStatus ws \<noteq> Some (js ''approved'')
       then send i (event ''error'' ''Not authenticated or not approved'')
       else
         bind_io (lift_result (get_prop msg (js ''content''))) (\<lambda>content'.
         bind_io (lift_result (get_prop msg (js ''roomId''))) (\<lambda>roomId.
         bind_io (lift_result (optional_trim content')) (\<lambda>trimmed.
           if \<not> truthy trimmed
           then send i (event ''error'' ''Message content required'')
           else
             bind_io (storage_call (getOrCreateGlobalRoom S)) (\<lambda>globalRoom.
             bind_io (the_ws i) (\<lambda>ws.
             bind_io (storage_call (createMessage S
                 \<lparr>new_content = (case trimmed of JString t \<Rightarrow> t | _ \<Rightarrow> []),
                  new_userId = userId ws,
                  new_roomId = (if truthy roomId then roomId else num (room_id globalRoom))\<rparr>))
               (\<lambda>newMessage.
             bind_io (the_ws i) (\<lambda>ws.
             bind_io (storage_call (getUserById S
                 (case userId ws of None \<Rightarrow> JUndefined | Some n \<Rightarrow> num n)))
               (\<lambda>u.
             broadcast_all (new_message newMessage u))))))))))"

definition handleSendMessage :: "'db storage \<Rightarrow> nat \<Rightarrow> jsval \<Rightarrow> 'db world \<Rightarrow> 'db world" where
  "handleSendMessage S i msg =
     try_catch (handleSendMessage_try S i msg)
       (\<lambda>error. send_to i (event ''error'' ''Failed to send message''))"

text \<open>\<open>handleAuth\<close> (lines 54 to 120).\<close>

definition auth_success :: "user \<Rightarrow> room \<Rightarrow> jsval" where
  "auth_success u globalRoom =
     JObject [(js ''type'', JString (js ''auth_success'')),
              (js ''user'',
               JObject [(js ''id'', num (user_id u)),
                        (js ''anonName'', JString (anonName u)),
                        (js ''status'', JString (status u))]),
              (js ''roomId'', num (room_id globalRoom))]"

definition message_view :: "message \<Rightarrow> jsval" where
  "message_view m =
     JObject [(js ''id'', num (message_id m)),
              (js ''content'', JString (content m)),
              (js ''createdAt'', message_createdAt m),
              (js ''user'',
               case message_user m of
                 Some u \<Rightarrow> JObject [(js ''id'', num (user_id u)),
                                     (js ''anonName'', JString (anonName u))]
               | None \<Rightarrow> JNull)]"

definition chat_history :: "message list \<Rightarrow> jsval" where
  "chat_history ms =
     JObject [(js ''type'', JString (js ''chat_history'')),
              (js ''messages'', JArray (map message_view ms))]"

text \<open>\<open>ws.userId = user.id; ws.userStatus = user.status\<close>\<close>

definition set_user :: "nat \<Rightarrow> user \<Rightarrow> (unit, 'db world) io" where
  "set_user i u = (\<lambda>w. (Inr (),
     w\<lparr>clients := (clients w)[i := (clients w ! i)\<lparr>userId := Some (user_id u),
                                                     userStatus := Some (status u)\<rparr>]\<rparr>))"

definition handleAuth_try :: "'db storage \<Rightarrow> nat \<Rightarrow> jsval \<Rightarrow> (unit, 'db world) io" where
  "handleAuth_try S i msg =
     bind_io (lift_result (get_prop msg (js ''userId''))) (\<lambda>userId'.
       if \<not> truthy userId'
       then send i (event ''auth_error'' ''User ID required'')
       else
         bind_io (storage_call (getUserById S userId')) (\<lambda>found.
           case found of
             None \<Rightarrow> send i (event ''auth_error'' ''User not found'')
           | Some u \<Rightarrow>
               bind_io (set_user i u) (\<lambda>_.
                 if status u \<noteq> js ''approved''
                 then send i (event ''auth_error'' ''User not approved for chat'')
                 else
                   bind_io (storage_call (getOrCreateGlobalRoom S)) (\<lambda>globalRoom.
                   bind_io (storage_call (getMessagesByRoomId S (room_id globalRoom) 50))
                     (\<lambda>messages'.
                   bind_io (send i (auth_success u globalRoom)) (\<lambda>_.
                   send i (chat_history messages')))))))"

definition handleAuth :: "'db storage \<Rightarrow> nat \<Rightarrow> jsval \<Rightarrow> 'db world \<Rightarrow> 'db world" where
  "handleAuth S i msg =
     try_catch (handleAuth_try S i msg)
       (\<lambda>error. send_to i (event ''auth_error'' ''Authentication failed''))"

text \<open>\<open>handleJoinRoom\<close> (lines 184 to 192) has no \<open>try\<close> of its own.  The room name
  is the literal of the source, in UTF-16.\<close>

definition joined_room :: "room \<Rightarrow> jsval" where
  "joined_room globalRoom =
     JObject [(js ''type'', JString (js ''joined_room'')),
              (js ''roomId'', num (room_id globalRoom)),
              (js ''roomName'', JString [1054, 1073, 1097, 1080, 1081, 32, 1095, 1072, 1090])]"

definition handleJoinRoom :: "'db storage \<Rightarrow> nat \<Rightarrow> jsval \<Rightarrow> (unit, 'db world) io" where
  "handleJoinRoom S i msg =
     bind_io (storage_call (getOrCreateGlobalRoom S)) (\<lambda>globalRoom.
       send i (joined_room globalRoom))"

text \<open>
  The \<open>message\<close> listener of a connection (lines 17 to 47).  \<open>JSON.parse\<close> belongs to the
  runtime and is a parameter.  Each handler runs to its end before the next event is
  taken up.
\<close>

definition on_message ::
  "(jsstring \<Rightarrow> js_error + jsval) \<Rightarrow> 'db storage \<Rightarrow> nat \<Rightarrow> jsstring \<Rightarrow> 'db world \<Rightarrow> 'db world"
where
  "on_message JSON_parse S i data =
     try_catch
       (bind_io (lift_result (JSON_parse data)) (\<lambda>msg.
        bind_io (lift_result (get_prop msg (js ''type''))) (\<lambda>ty.
          if ty = JString (js ''auth'') then (\<lambda>w. (Inr (), handleAuth S i msg w))
          else if ty = JString (js ''send_message'')
          then (\<lambda>w. (Inr (), handleSendMessage S i msg w))
          else if ty = JString (js ''join_room'') then handleJoinRoom S i msg
          else send i (event ''error'' ''Unknown message type''))))
       (\<lambda>error. send_to i (event ''error'' ''Invalid message format''))"

text \<open>
  What can happen to the server: a client connects (\<open>wss.clients\<close> gains a socket with
  neither field set), a socket closes, a frame arrives on an open socket, or the database
  changes out of band (an administrator approves a user).  A closed socket stays in the
  list with \<open>readyState\<close> CLOSED, which keeps the positions of the others; the broadcast
  skips it as it skips a socket that is gone.
\<close>

datatype 'db action =
    Connect
  | Close nat
  | Receive nat jsstring
  | External "'db \<Rightarrow> 'db"

definition new_ws :: ws where
  "new_ws = \<lparr>readyState = OPEN, userId = None, userStatus = None, sent = []\<rparr>"

fun step ::
  "(jsstring \<Rightarrow> js_error + jsval) \<Rightarrow> 'db storage \<Rightarrow> 'db action \<Rightarrow> 'db world \<Rightarrow> 'db world"
where
  "step P S Connect w = w\<lparr>clients := clients w @ [new_ws]\<rparr>"
| "step P S (Close i) w = w\<lparr>clients := (clients w)[i := (clients w ! i)\<lparr>readyState := 3\<rparr>]\<rparr>"
| "step P S (Receive i data) w =
     (if i < length (clients w) \<and> readyState (clients w ! i) = OPEN
      then on_message P S i data w else w)"
| "step P S (External f) w = w\<lparr>db := f (db w)\<rparr>"

definition run ::
  "(jsstring \<Rightarrow> js_error + jsval) \<Rightarrow> 'db storage \<Rightarrow> 'db action list \<Rightarrow> 'db world \<Rightarrow> 'db world"
where
  "run P S as w = foldl (\<lambda>w a. step P S a w) w as"

text \<open>The states the server can be in: those a run reaches from no connection at all.\<close>

definition reachable ::
  "(jsstring \<Rightarrow> js_error + jsval) \<Rightarrow> 'db storage \<Rightarrow> 'db world \<Rightarrow> bool"
where
  "reachable P S w = (\<exists>d as. w = run P S as \<lparr>clients = [], db = d\<rparr>)"

text \<open>The one thing asked of the storage here: a user's id is not 0 (a serial key).\<close>

definition nonzero_ids :: "'db storage \<Rightarrow> bool" where
  "nonzero_ids S = (\<forall>v d u d'. getUserById S v d = (Inr (Some u), d') \<longrightarrow> user_id u \<noteq> 0)"

definition is_new_message :: "jsval \<Rightarrow> bool" where
  "is_new_message frame = (get_prop frame (js ''type'') = Inr (JString (js ''new_message'')))"

text \<open>The frames a session was handed between two states.\<close>

definition delivered :: "'db world \<Rightarrow> 'db world \<Rightarrow> nat \<Rightarrow> jsval list" where
  "delivered w w' j = drop (length (sent (clients w ! j))) (sent (clients w' ! j))"

text \<open>Session \<open>j\<close> authenticates: an \<open>auth\<close> frame arrives on its socket.\<close>

definition authenticates :: "(jsstring \<Rightarrow> js_error + jsval) \<Rightarrow> nat \<Rightarrow> 'db action \<Rightarrow> bool" where
  "authenticates JSON_parse j a =
     (case a of
        Receive k data \<Rightarrow>
          k = j \<and> (case JSON_parse data of
                     Inr msg \<Rightarrow> get_prop msg (js ''type'') = Inr (JString (js ''auth''))
                   | Inl e \<Rightarrow> False)
      | _ \<Rightarrow> False)"

section \<open>Strings, bytes and digests of the runtime\<close>

text \<open>\<open>s.split(sep)\<close> for a separator of one code unit, and \<open>xs.join(sep)\<close>.\<close>

fun split_on :: "'a \<Rightarrow> 'a list \<Rightarrow> 'a list list" where
  "split_on sep [] = [[]]"
| "split_on sep (c # cs) =
     (if c = sep then [] # split_on sep cs
      else (case split_on sep cs of p # ps \<Rightarrow> (c # p) # ps | [] \<Rightarrow> [[c]]))"

fun join :: "'a list \<Rightarrow> 'a list list \<Rightarrow> 'a list" where
  "join sep [] = []"
| "join sep [x] = x"
| "join sep (x # y # ys) = x @ sep @ join sep (y # ys)"

text \<open>
  The value of a code unit that is a hexadecimal digit, in either case: the digits of an
  escape \<open>%XX\<close> and of a \<open>BigInt\<close> literal.  A code unit above 255 is none.
\<close>

definition hex_digit :: "int \<Rightarrow> int option" where
  "hex_digit c =
     (if 48 \<le> c \<and> c \<le> 57 then Some (c - 48)
      else if 97 \<le> c \<and> c \<le> 102 then Some (c - 87)
      else if 65 \<le> c \<and> c \<le> 70 then Some (c - 55)
      else None)"

text \<open>
  \<open>decodeURIComponent\<close> (ECMAScript, Decode): every \<open>%\<close> starts an escape of two
  hexadecimal digits; an escaped byte below 128 is that code unit; a higher one leads a
  UTF-8 sequence whose other bytes are escapes too, and which must encode a code point
  (no overlong form, no surrogate, at most U+10FFFF).  Anything else is a URIError.
\<close>

datatype uri_token = Lit int | Esc int

fun uri_tokens :: "jsstring \<Rightarrow> uri_token list option" where
  "uri_tokens [] = Some []"
| "uri_tokens (c # cs) =
     (if c = 37 then
        (case cs of
           h1 # h2 # rest \<Rightarrow>
             (case (hex_digit h1, hex_digit h2) of
                (Some a, Some b) \<Rightarrow> map_option ((#) (Esc (16 * a + b))) (uri_tokens rest)
              | _ \<Rightarrow> None)
         | _ \<Rightarrow> None)
      else map_option ((#) (Lit c)) (uri_tokens cs))"

definition continuation :: "int \<Rightarrow> bool" where
  "continuation b = (128 \<le> b \<and> b \<le> 191)"

definition utf16_of_code_point :: "int \<Rightarrow> jsstring" where
  "utf16_of_code_point v =
     (if v < 65536 then [v]
      else [55296 + (v - 65536) div 1024, 56320 + (v - 65536) mod 1024])"

fun decode_tokens :: "uri_token list \<Rightarrow> jsstring option" where
  "decode_tokens [] = Some []"
| "decode_tokens (Lit c # ts) = map_option ((#) c) (decode_tokens ts)"
| "decode_tokens (Esc b # ts) =
     (if b < 128 then map_option ((#) b) (decode_tokens ts)
      else if 192 \<le> b \<and> b \<le> 223 then
        (case ts of
           Esc b2 # r \<Rightarrow>
             (let v = (b - 192) * 64 + (b2 - 128)
              in if continuation b2 \<and> 128 \<le> v
                 then map_option ((@) (utf16_of_code_point v)) (decode_tokens r) else None)
         | _ \<Rightarrow> None)
      else if 224 \<le> b \<and> b \<le> 239 then
        (case ts of
           Esc b2 # Esc b3 # r \<Rightarrow>
             (let v = ((b - 224) * 64 + (b2 - 128)) * 64 + (b3 - 128)
              in if continuation b2 \<and> continuation b3 \<and> 2048 \<le> v
                    \<and> \<not> (55296 \<le> v \<and> v \<le> 57343)
                 then map_option ((@) (utf16_of_code_point v)) (decode_tokens r) else None)
         | _ \<Rightarrow> None)
      else if 240 \<le> b \<and> b \<le> 247 then
        (case ts of
           Esc b2 # Esc b3 # Esc b4 # r \<Rightarrow>
             (let v = (((b - 240) * 64 + (b2 - 128)) * 64 + (b3 - 128)) * 64 + (b4 - 128)
              in if continuation b2 \<and> continuation b3 \<and> continuation b4
                    \<and> 65536 \<le> v \<and> v \<le> 1114111
                 then map_option ((@) (utf16_of_code_point v)) (decode_tokens r) else None)
         | _ \<Rightarrow> None)
      else None)"

definition decodeURIComponent :: "jsstring \<Rightarrow> js_error + jsstring" where
  "decodeURIComponent s =
     (case uri_tokens s of
        None \<Rightarrow> Inl URIError
      | Some ts \<Rightarrow> (case decode_tokens ts of None \<Rightarrow> Inl URIError | Some r \<Rightarrow> Inr r))"

text \<open>
  The bytes of a string in UTF-8, as \<open>hash.update(string)\<close> takes them: a surrogate pair
  is one code point of four bytes, a lone surrogate becomes U+FFFD.
\<close>

definition utf8_of_code_point :: "int \<Rightarrow> int list" where
  "utf8_of_code_point v =
     (if v < 128 then [v]
      else if v < 2048 then [192 + v div 64, 128 + v mod 64]
      else if v < 65536 then [224 + v div 4096, 128 + v div 64 mod 64, 128 + v mod 64]
      else [240 + v div 262144, 128 + v div 4096 mod 64, 128 + v div 64 mod 64, 128 + v mod 64])"

fun utf8 :: "jsstring \<Rightarrow> int list" where
  "utf8 [] = []"
| "utf8 [c] = utf8_of_code_point (if 55296 \<le> c \<and> c \<le> 57343 then 65533 else c)"
| "utf8 (c # d # cs) =
     (if 55296 \<le> c \<and> c \<le> 56319 \<and> 56320 \<le> d \<and> d \<le> 57343
      then utf8_of_code_point (65536 + (c - 55296) * 1024 + (d - 56320)) @ utf8 cs
      else utf8_of_code_point (if 55296 \<le> c \<and> c \<le> 57343 then 65533 else c) @ utf8 (d # cs))"

text \<open>\<open>digest('hex')\<close>: two lower-case digits for each byte.\<close>

definition hex_char :: "int \<Rightarrow> int" where
  "hex_char n = (if n < 10 then 48 + n else 87 + n)"

definition hex_encode :: "int list \<Rightarrow> jsstring" where
  "hex_encode bs = concat (map (\<lambda>b. [hex_char (b div 16), hex_char (b mod 16)]) bs)"

text \<open>
  \<open>Buffer.from(s, 'hex')\<close>: one byte for each pair of hexadecimal digits, of either
  case; decoding stops at the first pair that is not one, and a last single character is
  dropped.  Node's decoder looks a character up in a table of 256 entries by the low byte
  of its UTF-16 code unit (\<open>unhex\<close>), so a code unit above 255 counts as the character of
  its low byte: U+0164 reads as \<open>d\<close>.
\<close>

definition unhex :: "int \<Rightarrow> int option" where
  "unhex c = hex_digit (c mod 256)"

fun Buffer_from_hex :: "jsstring \<Rightarrow> int list" where
  "Buffer_from_hex (c # d # cs) =
     (case (unhex c, unhex d) of
        (Some a, Some b) \<Rightarrow> (16 * a + b) # Buffer_from_hex cs
      | _ \<Rightarrow> [])"
| "Buffer_from_hex cs = []"

text \<open>\<open>crypto.timingSafeEqual\<close> throws a RangeError on buffers of different lengths.\<close>

definition timingSafeEqual :: "int list \<Rightarrow> int list \<Rightarrow> js_error + bool" where
  "timingSafeEqual a b = (if length a \<noteq> length b then Inl RangeError else Inr (a = b))"

subsection \<open>SHA-256 and HMAC-SHA256\<close>

text \<open>
  FIPS 180-4 and RFC 2104 over bytes; a 32-bit word is an integer below \<open>2 ^ 32\<close>, and
  sums are reduced modulo \<open>2 ^ 32\<close>.
\<close>

type_synonym u32 = int

definition rotr :: "nat \<Rightarrow> u32 \<Rightarrow> u32" where
  "rotr n x = drop_bit n x + push_bit (32 - n) (take_bit n x)"

definition sha_K :: "u32 list" where
  "sha_K = [
   1116352408, 1899447441, 3049323471, 3921009573, 961987163, 1508970993,
   2453635748, 2870763221, 3624381080, 310598401, 607225278, 1426881987,
   1925078388, 2162078206, 2614888103, 3248222580, 3835390401, 4022224774,
   264347078, 604807628, 770255983, 1249150122, 1555081692, 1996064986,
   2554220882, 2821834349, 2952996808, 3210313671, 3336571891, 3584528711,
   113926993, 338241895, 666307205, 773529912, 1294757372, 1396182291,
   1695183700, 1986661051, 2177026350, 2456956037, 2730485921, 2820302411,
   3259730800, 3345764771, 3516065817, 3600352804, 4094571909, 275423344,
   430227734, 506948616, 659060556, 883997877, 958139571, 1322822218,
   1537002063, 1747873779, 1955562222, 2024104815, 2227730452, 2361852424,
   2428436474, 2756734187, 3204031479, 3329325298]"

definition sha_H0 :: "u32 list" where
  "sha_H0 = [1779033703, 3144134277, 1013904242, 2773480762,
             1359893119, 2600822924, 528734635, 1541459225]"

definition ssig0 :: "u32 \<Rightarrow> u32" where
  "ssig0 x = rotr 7 x XOR rotr 18 x XOR drop_bit 3 x"

definition ssig1 :: "u32 \<Rightarrow> u32" where
  "ssig1 x = rotr 17 x XOR rotr 19 x XOR drop_bit 10 x"

definition bsig0 :: "u32 \<Rightarrow> u32" where
  "bsig0 x = rotr 2 x XOR rotr 13 x XOR rotr 22 x"

definition bsig1 :: "u32 \<Rightarrow> u32" where
  "bsig1 x = rotr 6 x XOR rotr 11 x XOR rotr 25 x"

definition ch :: "u32 \<Rightarrow> u32 \<Rightarrow> u32 \<Rightarrow> u32" where
  "ch x y z = (x AND y) XOR ((4294967295 - x) AND z)"

definition maj :: "u32 \<Rightarrow> u32 \<Rightarrow> u32 \<Rightarrow> u32" where
  "maj x y z = (x AND y) XOR (x AND z) XOR (y AND z)"

fun be32 :: "int list \<Rightarrow> u32 list" where
  "be32 (a # b # c # d # r) = (((a * 256 + b) * 256 + c) * 256 + d) # be32 r"
| "be32 r = []"

text \<open>The message schedule as a window of 16 words that slides by one word a round.\<close>

definition next_w :: "u32 list \<Rightarrow> u32 list" where
  "next_w ws = tl ws @ [(ssig1 (ws ! 14) + ws ! 9 + ssig0 (ws ! 1) + ws ! 0) mod 4294967296]"

type_synonym sha_state = "u32 \<times> u32 \<times> u32 \<times> u32 \<times> u32 \<times> u32 \<times> u32 \<times> u32"

definition round256 :: "sha_state \<Rightarrow> u32 \<Rightarrow> u32 \<Rightarrow> sha_state" where
  "round256 s k w = (case s of (a, b, c, d, e, f, g, h) \<Rightarrow>
     (let t1 = h + bsig1 e + ch e f g + k + w;
          t2 = bsig0 a + maj a b c
      in ((t1 + t2) mod 4294967296, a, b, c, (d + t1) mod 4294967296, e, f, g)))"

fun rounds :: "u32 list \<Rightarrow> u32 list \<Rightarrow> sha_state \<Rightarrow> sha_state" where
  "rounds [] ws s = s"
| "rounds (k # ks) ws s = rounds ks (next_w ws) (round256 s k (ws ! 0))"

definition state_of :: "u32 list \<Rightarrow> sha_state" where
  "state_of hs = (hs ! 0, hs ! 1, hs ! 2, hs ! 3, hs ! 4, hs ! 5, hs ! 6, hs ! 7)"

definition list_of :: "sha_state \<Rightarrow> u32 list" where
  "list_of s = (case s of (a, b, c, d, e, f, g, h) \<Rightarrow> [a, b, c, d, e, f, g, h])"

definition compress :: "u32 list \<Rightarrow> int list \<Rightarrow> u32 list" where
  "compress hs blk =
     map2 (\<lambda>x y. (x + y) mod 4294967296) hs
       (list_of (rounds sha_K (be32 blk) (state_of hs)))"

definition len64 :: "nat \<Rightarrow> int list" where
  "len64 n = map (\<lambda>i. drop_bit (8 * i) (int n) mod 256) (rev [0..<8])"

definition pad :: "int list \<Rightarrow> int list" where
  "pad m = m @ [128] @ replicate ((119 - length m mod 64) mod 64) 0 @ len64 (8 * length m)"

fun blocks :: "nat \<Rightarrow> int list \<Rightarrow> int list list" where
  "blocks 0 m = []"
| "blocks (Suc n) m = take 64 m # blocks n (drop 64 m)"

definition word_bytes :: "u32 \<Rightarrow> int list" where
  "word_bytes w = [drop_bit 24 w mod 256, drop_bit 16 w mod 256, drop_bit 8 w mod 256, w mod 256]"

definition sha256_blocks :: "int list list \<Rightarrow> int list" where
  "sha256_blocks bs = concat (map word_bytes (foldl compress sha_H0 bs))"

definition sha256 :: "int list \<Rightarrow> int list" where
  "sha256 m = (let p = pad m in sha256_blocks (blocks (length p div 64) p))"

definition hmac_sha256 :: "int list \<Rightarrow> int list \<Rightarrow> int list" where
  "hmac_sha256 key m =
     (let k0 = (if length key > 64 then sha256 key else key);
          k = k0 @ replicate (64 - length k0) 0
      in sha256 (map (\<lambda>b. b XOR 92) k @ sha256 (map (\<lambda>b. b XOR 54) k @ m)))"

section \<open>The HTTP routes (src/server/routes.ts)\<close>

subsection \<open>\<open>verifyInitData\<close>\<close>

text \<open>
  \<open>kv[k] = v\<close> on the plain object \<open>kv\<close>: the properties in the order of their first
  assignment.  Assigning a string to \<open>__proto__\<close> goes to the setter of
  \<open>Object.prototype\<close>, which ignores it: no property is created.
\<close>

fun assign :: "(jsstring \<times> jsstring) list \<Rightarrow> jsstring \<Rightarrow> jsstring \<Rightarrow> (jsstring \<times> jsstring) list" where
  "assign [] k v = [(k, v)]"
| "assign ((k', v') # kv) k v = (if k' = k then (k, v) # kv else (k', v') # assign kv k v)"

definition obj_set :: "(jsstring \<times> jsstring) list \<Rightarrow> jsstring \<Rightarrow> jsstring \<Rightarrow> (jsstring \<times> jsstring) list" where
  "obj_set kv k v = (if k = js ''__proto__'' then kv else assign kv k v)"

text \<open>
  The loop of lines 18 to 21 over \<open>params\<close>; \<open>[k, v]\<close> are the first two parts of an
  entry, and \<open>v || ''\<close> is the empty string when there is no second part.
\<close>

fun parse_params ::
  "jsstring list list \<Rightarrow> (jsstring \<times> jsstring) list \<Rightarrow> js_error + (jsstring \<times> jsstring) list"
where
  "parse_params [] kv = Inr kv"
| "parse_params (p # ps) kv =
     (let k = (case p of [] \<Rightarrow> [] | k # r \<Rightarrow> k);
          v = (case p of k # v # r \<Rightarrow> v | _ \<Rightarrow> [])
      in if k = [] then parse_params ps kv
         else (case decodeURIComponent v of
                 Inl e \<Rightarrow> Inl e
               | Inr decoded \<Rightarrow> parse_params ps (obj_set kv k decoded)))"

definition parse_kv :: "jsstring \<Rightarrow> js_error + (jsstring \<times> jsstring) list" where
  "parse_kv initData = parse_params (map (split_on 61) (split_on 38 initData)) []"

text \<open>Lines 26 to 28.  \<open>sort()\<close> compares strings by their UTF-16 code units.\<close>

definition data_check_string :: "(jsstring \<times> jsstring) list \<Rightarrow> jsstring" where
  "data_check_string kv =
     (let keys = sort (filter (\<lambda>k. k \<noteq> js ''hash'') (map fst kv))
      in join [10] (map (\<lambda>k. k @ js ''='' @ (case map_of kv k of Some v \<Rightarrow> v | None \<Rightarrow> [])) keys))"

text \<open>The \<open>try\<close> block.  A value that is not a string has no \<open>split\<close>: a TypeError.\<close>

definition verifyInitData_try :: "jsval \<Rightarrow> jsstring \<Rightarrow> js_error + bool" where
  "verifyInitData_try initData botToken =
     (case initData of
        JString s \<Rightarrow>
          (case parse_kv s of
             Inl e \<Rightarrow> Inl e
           | Inr kv \<Rightarrow>
               (case map_of kv (js ''hash'') of
                  None \<Rightarrow> Inr False
                | Some hash \<Rightarrow>
                    if hash = [] then Inr False
                    else
                      let secret = sha256 (utf8 botToken);
                          hmac = hex_encode (hmac_sha256 secret (utf8 (data_check_string kv)))
                      in timingSafeEqual (Buffer_from_hex hmac) (Buffer_from_hex hash)))
      | _ \<Rightarrow> Inl TypeError)"

definition verifyInitData :: "jsval \<Rightarrow> jsstring \<Rightarrow> bool" where
  "verifyInitData initData botToken =
     (case verifyInitData_try initData botToken of Inl error \<Rightarrow> False | Inr r \<Rightarrow> r)"

subsection \<open>\<open>generateAnonName\<close>\<close>

text \<open>The decimal digits of an integer, as a template literal renders it.\<close>

function digit_string :: "int \<Rightarrow> jsstring" where
  "digit_string n = (if n < 10 then [48 + n] else digit_string (n div 10) @ [48 + n mod 10])"
  by pat_completeness auto
termination
  by (relation "measure nat") auto

definition number_string :: "int \<Rightarrow> jsstring" where
  "number_string n = (if n < 0 then 45 # digit_string (- n) else digit_string n)"

text \<open>
  The arguments are the two products as the runtime computes them: \<open>p1\<close> the value of
  \<open>Math.random() * 9000\<close>, \<open>p2\<close> the value of \<open>Math.random() * prefixes.length\<close>, both
  doubles, in the order in which the draws are made.  \<open>Math.floor\<close> of a double is exact.
\<close>

definition generateAnonName :: "rat \<Rightarrow> rat \<Rightarrow> jsstring" where
  "generateAnonName p1 p2 =
     (let prefixes = [js ''User'', js ''Anon'', js ''Guest'', js ''Member''];
          suffix = \<lfloor>p1\<rfloor> + 1000;
          i = \<lfloor>p2\<rfloor>;
          prefix = (if 0 \<le> i \<and> i < 4 then prefixes ! nat i else js ''undefined'')
      in prefix @ number_string suffix)"

subsection \<open>\<open>querystring.parse\<close>, \<open>JSON.parse\<close> and \<open>BigInt\<close>\<close>

text \<open>
  Three functions of the runtime are parameters: \<open>JSON.parse\<close>; the lenient decoder that
  \<open>querystring\<close> falls back to when \<open>decodeURIComponent\<close> throws; and
  \<open>Array.prototype.toString\<close>, through which \<open>BigInt\<close> converts an array.
\<close>

record runtime =
  JSON_parse :: "jsstring \<Rightarrow> js_error + jsval"
  unescapeBuffer :: "jsstring \<Rightarrow> jsstring"
  Array_toString :: "jsval list \<Rightarrow> jsstring"

text \<open>
  \<open>querystring.parse\<close> of Node.js with its defaults: the entries between \<open>&\<close>, the
  empty ones left out, at most 1000 of them; the key is what stands before the first
  \<open>=\<close> and the value all that follows it; \<open>+\<close> is a space; a key that occurs again
  collects its values in an array.  A key or a value is decoded, leniently if
  \<open>decodeURIComponent\<close> throws, when the scan of the entry has flagged it.
\<close>

datatype qs_value = Single jsstring | Multiple "jsstring list"

text \<open>
  The scan of one entry, character by character, with the variables of the loop:
  whether the separator \<open>=\<close> is still to come, \<open>keyEncoded\<close>, \<open>valEncoded\<close> and
  \<open>encodeCheck\<close>.  A \<open>%\<close> sets \<open>encodeCheck\<close> to 1, a hexadecimal digit after it counts it
  up, and at 3 the flag is set.  In the key every other character sets the count back; a
  \<open>+\<close> of the value leaves it as it is; and once the key is flagged its further
  characters are counted for the value's flag.
\<close>

fun qs_flags :: "bool \<Rightarrow> bool \<Rightarrow> bool \<Rightarrow> nat \<Rightarrow> jsstring \<Rightarrow> bool \<times> bool" where
  "qs_flags in_key keyEncoded valEncoded n [] = (keyEncoded, valEncoded)"
| "qs_flags in_key keyEncoded valEncoded n (c # cs) =
     (if in_key \<and> c = 61 then qs_flags False keyEncoded valEncoded 0 cs
      else if in_key \<and> \<not> keyEncoded \<and> c = 37 then qs_flags True keyEncoded valEncoded 1 cs
      else if in_key \<and> \<not> keyEncoded \<and> 0 < n \<and> hex_digit c \<noteq> None
      then qs_flags True (n = 2) valEncoded (n + 1) cs
      else
        let n1 = (if in_key \<and> \<not> keyEncoded then 0 else n)
        in if c = 43 \<or> valEncoded then qs_flags in_key keyEncoded valEncoded n1 cs
           else if c = 37 then qs_flags in_key keyEncoded valEncoded 1 cs
           else if 0 < n1
           then (if hex_digit c \<noteq> None then qs_flags in_key keyEncoded (n1 = 2) (n1 + 1) cs
                 else qs_flags in_key keyEncoded valEncoded 0 cs)
           else qs_flags in_key keyEncoded valEncoded n1 cs)"

text \<open>\<open>decodeStr\<close>: \<open>decodeURIComponent\<close>, and the lenient decoder if it throws.\<close>

definition decodeStr :: "runtime \<Rightarrow> jsstring \<Rightarrow> jsstring" where
  "decodeStr L t = (case decodeURIComponent t of Inr r \<Rightarrow> r | Inl e \<Rightarrow> unescapeBuffer L t)"

fun qs_add :: "(jsstring \<times> qs_value) list \<Rightarrow> jsstring \<Rightarrow> jsstring \<Rightarrow> (jsstring \<times> qs_value) list" where
  "qs_add [] k v = [(k, Single v)]"
| "qs_add ((k', x) # obj) k v =
     (if k' = k
      then (k, case x of Single u \<Rightarrow> Multiple [u, v] | Multiple us \<Rightarrow> Multiple (us @ [v])) # obj
      else (k', x) # qs_add obj k v)"

definition qs_entry :: "runtime \<Rightarrow> jsstring \<Rightarrow> jsstring \<times> jsstring" where
  "qs_entry L p =
     (let flags = qs_flags True False False 0 p;
          key = map (\<lambda>c. if c = 43 then 32 else c) (takeWhile (\<lambda>c. c \<noteq> 61) p);
          value = map (\<lambda>c. if c = 43 then 32 else c) (drop 1 (dropWhile (\<lambda>c. c \<noteq> 61) p))
      in (if key \<noteq> [] \<and> fst flags then decodeStr L key else key,
          if value \<noteq> [] \<and> snd flags then decodeStr L value else value))"

definition querystring_parse :: "runtime \<Rightarrow> jsstring \<Rightarrow> (jsstring \<times> qs_value) list" where
  "querystring_parse L qs =
     foldl (\<lambda>obj p. case qs_entry L p of (k, v) \<Rightarrow> qs_add obj k v) []
       (filter (\<lambda>p. p \<noteq> []) (take 1000 (split_on 38 qs)))"

text \<open>\<open>parseInitData\<close> (lines 9 to 11); a value that is not a string parses to \<open>{}\<close>.\<close>

definition parseInitData :: "runtime \<Rightarrow> jsval \<Rightarrow> (jsstring \<times> qs_value) list" where
  "parseInitData L initData = (case initData of JString s \<Rightarrow> querystring_parse L s | _ \<Rightarrow> [])"

text \<open>
  \<open>BigInt(v)\<close>: an integral number converts, another number is a RangeError; a string
  converts if, trimmed, it is empty, a decimal integer with an optional sign, or a
  hexadecimal, octal or binary literal, and is a SyntaxError otherwise; \<open>true\<close> and
  \<open>false\<close> are 1 and 0; \<open>undefined\<close> and \<open>null\<close> are a TypeError; an array converts as its
  string does, and the string of any other object is no integer.
\<close>

fun digits_value :: "int \<Rightarrow> jsstring \<Rightarrow> int \<Rightarrow> int option" where
  "digits_value base [] acc = Some acc"
| "digits_value base (c # cs) acc =
     (case hex_digit c of
        Some d \<Rightarrow> if d < base then digits_value base cs (acc * base + d) else None
      | None \<Rightarrow> None)"

definition string_to_bigint :: "jsstring \<Rightarrow> int option" where
  "string_to_bigint s =
     (let t = js_trim s in
      if t = [] then Some 0
      else if take 2 t = js ''0x'' \<or> take 2 t = js ''0X''
      then (if drop 2 t = [] then None else digits_value 16 (drop 2 t) 0)
      else if take 2 t = js ''0o'' \<or> take 2 t = js ''0O''
      then (if drop 2 t = [] then None else digits_value 8 (drop 2 t) 0)
      else if take 2 t = js ''0b'' \<or> take 2 t = js ''0B''
      then (if drop 2 t = [] then None else digits_value 2 (drop 2 t) 0)
      else if take 1 t = js ''-''
      then (if drop 1 t = [] then None else map_option uminus (digits_value 10 (drop 1 t) 0))
      else if take 1 t = js ''+''
      then (if drop 1 t = [] then None else digits_value 10 (drop 1 t) 0)
      else digits_value 10 t 0)"

definition string_BigInt :: "jsstring \<Rightarrow> js_error + int" where
  "string_BigInt s = (case string_to_bigint s of Some n \<Rightarrow> Inr n | None \<Rightarrow> Inl SyntaxError)"

fun BigInt :: "runtime \<Rightarrow> jsval \<Rightarrow> js_error + int" where
  "BigInt L JUndefined = Inl TypeError"
| "BigInt L JNull = Inl TypeError"
| "BigInt L (JBool b) = Inr (if b then 1 else 0)"
| "BigInt L (JNumber (Finite r)) = (if r = of_int \<lfloor>r\<rfloor> then Inr \<lfloor>r\<rfloor> else Inl RangeError)"
| "BigInt L (JNumber n) = Inl RangeError"
| "BigInt L (JString s) = string_BigInt s"
| "BigInt L (JDate t) = Inr t"
| "BigInt L (JArray xs) = string_BigInt (Array_toString L xs)"
| "BigInt L (JObject ps) = Inl SyntaxError"

subsection \<open>\<open>POST /api/auth\<close>\<close>

record env =
  TELEGRAM_BOT_TOKEN :: "jsstring option"
  BOT_TOKEN :: "jsstring option"

record response =
  res_status :: nat
  res_body :: jsval

definition error_response :: "nat \<Rightarrow> string \<Rightarrow> response" where
  "error_response n msg = \<lparr>res_status = n, res_body = JObject [(js ''error'', JString (js msg))]\<rparr>"

text \<open>\<open>process.env.TELEGRAM_BOT_TOKEN || process.env.BOT_TOKEN || ''\<close>\<close>

definition bot_token :: "env \<Rightarrow> jsstring" where
  "bot_token e =
     (case TELEGRAM_BOT_TOKEN e of
        Some t \<Rightarrow> if t \<noteq> [] then t else (case BOT_TOKEN e of Some b \<Rightarrow> b | None \<Rightarrow> [])
      | None \<Rightarrow> (case BOT_TOKEN e of Some b \<Rightarrow> b | None \<Rightarrow> []))"

text \<open>Lines 79 to 88: \<open>userData\<close> stays \<open>null\<close> unless \<open>parsed.user\<close> is a non-empty string
  that \<open>JSON.parse\<close> accepts.\<close>

definition user_data :: "runtime \<Rightarrow> jsval \<Rightarrow> jsval" where
  "user_data L initData =
     (case map_of (parseInitData L initData) (js ''user'') of
        Some (Single u) \<Rightarrow>
          if u = [] then JNull
          else (case JSON_parse L u of Inr v \<Rightarrow> v | Inl e \<Rightarrow> JNull)
      | _ \<Rightarrow> JNull)"

definition auth_ok :: "user \<Rightarrow> response" where
  "auth_ok u =
     \<lparr>res_status = 200,
      res_body =
        JObject [(js ''user'',
                  JObject [(js ''id'', num (user_id u)),
                           (js ''anonName'', JString (anonName u)),
                           (js ''status'', JString (status u)),
                           (js ''createdAt'', user_createdAt u)]),
                 (js ''status'', JString (status u))]\<rparr>"

text \<open>\<open>userData.id\<close> in the condition \<open>!userData || !userData.id\<close>: it is read only
  from a truthy \<open>userData\<close>, where the access does not throw.\<close>

definition id_of :: "jsval \<Rightarrow> jsval" where
  "id_of userData = (case get_prop userData (js ''id'') of Inr v \<Rightarrow> v | Inl x \<Rightarrow> JUndefined)"

text \<open>Lines 78 to 115, after the verification.\<close>

definition auth_user ::
  "runtime \<Rightarrow> 'db storage \<Rightarrow> rat \<times> rat \<Rightarrow> jsval \<Rightarrow> (response, 'db) io"
where
  "auth_user L S rnd initData =
     (let userData = user_data L initData
      in
      if \<not> truthy userData \<or> \<not> truthy (id_of userData)
      then ret (error_response 400 ''Invalid user data in initData'')
      else
        bind_io (lift_result (BigInt L (id_of userData))) (\<lambda>tgId'.
        bind_io (getUserByTgId S tgId') (\<lambda>found.
        bind_io
          (case found of
             Some u \<Rightarrow> ret u
           | None \<Rightarrow>
               createUser S
                 \<lparr>new_tgId = tgId',
                  new_username =
                    (case get_prop userData (js ''username'') of
                       Inr n \<Rightarrow> if truthy n then n else JNull
                     | Inl x \<Rightarrow> JNull),
                  new_anonName = generateAnonName (fst rnd) (snd rnd),
                  new_status = js ''pending''\<rparr>)
          (\<lambda>u. ret (auth_ok u)))))"

text \<open>The \<open>try\<close> block of the handler (lines 61 to 115).\<close>

definition auth_try ::
  "runtime \<Rightarrow> 'db storage \<Rightarrow> env \<Rightarrow> rat \<times> rat \<Rightarrow> jsval \<Rightarrow> (response, 'db) io"
where
  "auth_try L S e rnd req_body =
     bind_io (lift_result (get_prop req_body (js ''initData''))) (\<lambda>initData.
       if \<not> truthy initData then ret (error_response 400 ''initData required'')
       else
         let botToken = bot_token e in
         if botToken = [] then ret (error_response 500 ''Bot token not configured'')
         else if \<not> verifyInitData initData botToken
         then ret (error_response 401 ''Invalid initData'')
         else auth_user L S rnd initData)"

definition auth_post ::
  "runtime \<Rightarrow> 'db storage \<Rightarrow> env \<Rightarrow> rat \<times> rat \<Rightarrow> jsval \<Rightarrow> 'db \<Rightarrow> response \<times> 'db"
where
  "auth_post L S e rnd req_body d =
     (case auth_try L S e rnd req_body d of
        (Inr res, d') \<Rightarrow> (res, d')
      | (Inl error, d') \<Rightarrow> (error_response 500 ''Authentication failed'', d'))"

section \<open>An in-memory persistence layer\<close>

text \<open>
  Modelled from the spec: \<open>./storage\<close> (the persistence layer) is missing from the sources.
  The spec (sections 3 and 6) gives it users with a unique external identity, one global
  room that is created on first access and reused, and messages whose insertion order is
  their chronological order; \<open>getMessagesByRoomId\<close> returns the most recent \<open>limit\<close>
  messages of a room, oldest first.  A user's id is the position of its row, counted
  from 1, and so is a message's; \<open>clock\<close> stamps what is created.
\<close>

record mem_db =
  users :: "user list"
  global_room :: "room option"
  messages :: "message list"
  clock :: int

definition row_user :: "mem_db \<Rightarrow> int \<Rightarrow> user option" where
  "row_user d n =
     (if 1 \<le> n \<and> n \<le> int (length (users d))
      then Some ((users d ! nat (n - 1))\<lparr>user_id := n\<rparr>) else None)"

definition mem_getUserById :: "jsval \<Rightarrow> (user option, mem_db) io" where
  "mem_getUserById v d =
     (case v of
        JNumber (Finite r) \<Rightarrow> (if r = of_int \<lfloor>r\<rfloor> then (Inr (row_user d \<lfloor>r\<rfloor>), d) else (Inr None, d))
      | _ \<Rightarrow> (Inr None, d))"

fun find_tgId :: "int \<Rightarrow> int \<Rightarrow> user list \<Rightarrow> user option" where
  "find_tgId t n [] = None"
| "find_tgId t n (u # us) = (if tgId u = t then Some (u\<lparr>user_id := n\<rparr>) else find_tgId t (n + 1) us)"

definition mem_getUserByTgId :: "int \<Rightarrow> (user option, mem_db) io" where
  "mem_getUserByTgId t d = (Inr (find_tgId t 1 (users d)), d)"

definition mem_createUser :: "insert_user \<Rightarrow> (user, mem_db) io" where
  "mem_createUser f d =
     (if find_tgId (new_tgId f) 1 (users d) \<noteq> None then (Inl StorageError, d)
      else
        let u = \<lparr>user_id = int (length (users d)) + 1, tgId = new_tgId f,
                 username = new_username f, anonName = new_anonName f,
                 status = new_status f, user_createdAt = JDate (clock d)\<rparr>
        in (Inr u, d\<lparr>users := users d @ [u], clock := clock d + 1\<rparr>))"

definition mem_getOrCreateGlobalRoom :: "(room, mem_db) io" where
  "mem_getOrCreateGlobalRoom d =
     (case global_room d of
        Some r \<Rightarrow> (Inr r, d)
      | None \<Rightarrow> (Inr \<lparr>room_id = 1\<rparr>, d\<lparr>global_room := Some \<lparr>room_id = 1\<rparr>\<rparr>))"

definition join_user :: "mem_db \<Rightarrow> message \<Rightarrow> message" where
  "join_user d m =
     m\<lparr>message_user := (case message_userId m of None \<Rightarrow> None | Some n \<Rightarrow> row_user d n)\<rparr>"

definition mem_getMessagesByRoomId :: "int \<Rightarrow> int \<Rightarrow> (message list, mem_db) io" where
  "mem_getMessagesByRoomId r limit d =
     (let ms = filter (\<lambda>m. message_roomId m = num r) (messages d)
      in (Inr (map (join_user d) (drop (length ms - nat limit) ms)), d))"

definition mem_createMessage :: "insert_message \<Rightarrow> (message, mem_db) io" where
  "mem_createMessage f d =
     (let m = \<lparr>message_id = int (length (messages d)) + 1, content = new_content f,
               message_userId = new_userId f, message_roomId = new_roomId f,
               message_createdAt = JDate (clock d), message_user = None\<rparr>
      in (Inr m, d\<lparr>messages := messages d @ [m], clock := clock d + 1\<rparr>))"

definition mem_storage :: "mem_db storage" where
  "mem_storage =
     \<lparr>getUserById = mem_getUserById, getUserByTgId = mem_getUserByTgId,
      createUser = mem_createUser, getOrCreateGlobalRoom = mem_getOrCreateGlobalRoom,
      getMessagesByRoomId = mem_getMessagesByRoomId, createMessage = mem_createMessage\<rparr>"

section \<open>Relations between the state before and after a handler\<close>

text \<open>\<open>io_rel m Q\<close>: whatever \<open>m\<close> returns or throws, \<open>Q\<close> relates the state before to the
  state after.\<close>

definition io_rel :: "('a, 's) io \<Rightarrow> ('s \<Rightarrow> 's \<Rightarrow> bool) \<Rightarrow> bool" where
  "io_rel m Q = (\<forall>s r s'. m s = (r, s') \<longrightarrow> Q s s')"

definition ids_ok :: "ws list \<Rightarrow> bool" where
  "ids_ok cs = (\<forall>c \<in> set cs. userId c \<noteq> Some 0)"

definition keeps_ids :: "'db world \<Rightarrow> 'db world \<Rightarrow> bool" where
  "keeps_ids w w' = (ids_ok (clients w) \<longrightarrow> ids_ok (clients w'))"

text \<open>\<open>quiet j\<close>: a session \<open>j\<close> whose cached status is not \<open>approved\<close> keeps that
  status and is handed no \<open>new_message\<close>.\<close>

definition quiet :: "nat \<Rightarrow> 'db world \<Rightarrow> 'db world \<Rightarrow> bool" where
  "quiet j w w' =
     (length (clients w) \<le> length (clients w') \<and>
      (j < length (clients w) \<and> userStatus (clients w ! j) \<noteq> Some (js ''approved'') \<longrightarrow>
         userStatus (clients w' ! j) = userStatus (clients w ! j) \<and>
         filter is_new_message (sent (clients w' ! j))
           = filter is_new_message (sent (clients w ! j))))"

section \<open>Notions used in the statements\<close>

definition byte_list :: "int list \<Rightarrow> bool" where
  "byte_list bs = (\<forall>b \<in> set bs. 0 \<le> b \<and> b < 256)"

text \<open>The external identity a request carries: \<open>BigInt(userData.id)\<close>.\<close>

definition external_id :: "runtime \<Rightarrow> jsval \<Rightarrow> js_error + int" where
  "external_id L req_body =
     (case get_prop req_body (js ''initData'') of
        Inr x \<Rightarrow> BigInt L (id_of (user_data L x))
      | Inl e \<Rightarrow> Inl e)"

definition object_keys :: "jsval \<Rightarrow> jsstring list" where
  "object_keys v = (case v of JObject ps \<Rightarrow> map fst ps | _ \<Rightarrow> [])"


text \<open>
  The entries of a payload as the loop of \<open>verifyInitData\<close> reads them: the first part
  of each entry as its key, the second (or the empty string) as its value, the entries
  with an empty key left out.
\<close>

definition entry_key :: "jsstring list \<Rightarrow> jsstring" where
  "entry_key p = (case p of [] \<Rightarrow> [] | k # r \<Rightarrow> k)"

definition entry_value :: "jsstring list \<Rightarrow> jsstring" where
  "entry_value p = (case p of k # v # r \<Rightarrow> v | _ \<Rightarrow> [])"

definition entries_of :: "jsstring list list \<Rightarrow> (jsstring \<times> jsstring) list" where
  "entries_of ps = filter (\<lambda>e. fst e \<noteq> []) (map (\<lambda>p. (entry_key p, entry_value p)) ps)"

definition entries :: "jsstring \<Rightarrow> (jsstring \<times> jsstring) list" where
  "entries s = entries_of (map (split_on 61) (split_on 38 s))"

definition decoded :: "jsstring \<Rightarrow> jsstring" where
  "decoded v = (case decodeURIComponent v of Inr d \<Rightarrow> d | Inl e \<Rightarrow> [])"

definition decodable :: "jsstring \<Rightarrow> bool" where
  "decodable v = (case decodeURIComponent v of Inr d \<Rightarrow> True | Inl e \<Rightarrow> False)"

section \<open>The signature verifier and the parser as the spec words them\<close>

text \<open>
  Section 4.1 of the spec, step 3: the remaining keys sorted byte-wise, that is by their
  UTF-8 bytes, rendered as \<open>key=value\<close> and joined by a newline; and its steps 2 to 6:
  verification succeeds exactly if the pair \<open>hash\<close> is there and its value equals the
  lower-case hexadecimal HMAC of the check string.
\<close>

definition check_string_bytewise :: "(jsstring \<times> jsstring) list \<Rightarrow> jsstring" where
  "check_string_bytewise kv =
     join [10] (map (\<lambda>k. k @ js ''='' @ (case map_of kv k of Some v \<Rightarrow> v | None \<Rightarrow> []))
                  (sort_key utf8 (filter (\<lambda>k. k \<noteq> js ''hash'') (map fst kv))))"

definition claimed_verify :: "jsstring \<Rightarrow> jsstring \<Rightarrow> bool" where
  "claimed_verify rawPayload secret =
     (case parse_kv rawPayload of
        Inl e \<Rightarrow> False
      | Inr kv \<Rightarrow>
          map_of kv (js ''hash'')
            = Some (hex_encode (hmac_sha256 (sha256 (utf8 secret))
                                  (utf8 (check_string_bytewise kv)))))"

text \<open>
  Section 4.1, step 1: "malformed entries are skipped silently".  An entry is malformed
  if its key is empty, its value is missing, or its value is no percent-encoding; the
  others are stored.
\<close>

fun claimed_params ::
  "jsstring list list \<Rightarrow> (jsstring \<times> jsstring) list \<Rightarrow> (jsstring \<times> jsstring) list"
where
  "claimed_params [] kv = kv"
| "claimed_params (p # ps) kv =
     (case p of
        k # v # r \<Rightarrow>
          (if k = [] then claimed_params ps kv
           else (case decodeURIComponent v of
                   Inl e \<Rightarrow> claimed_params ps kv
                 | Inr d \<Rightarrow> claimed_params ps (obj_set kv k d)))
      | _ \<Rightarrow> claimed_params ps kv)"

definition claimed_parse :: "jsstring \<Rightarrow> (jsstring \<times> jsstring) list" where
  "claimed_parse s = claimed_params (map (split_on 61) (split_on 38 s)) []"

section \<open>Concrete inputs\<close>

text \<open>
  The values of \<open>JSON.parse\<close> at the frames used in the examples below, and a database
  with two approved users and a pending one.
\<close>

definition demo_parse :: "jsstring \<Rightarrow> js_error + jsval" where
  "demo_parse data =
     (if data = js ''{\"type\":\"auth\",\"userId\":1}''
      then Inr (JObject [(js ''type'', JString (js ''auth'')), (js ''userId'', num 1)])
      else if data = js ''{\"type\":\"auth\",\"userId\":2}''
      then Inr (JObject [(js ''type'', JString (js ''auth'')), (js ''userId'', num 2)])
      else if data = js ''{\"type\":\"auth\",\"userId\":3}''
      then Inr (JObject [(js ''type'', JString (js ''auth'')), (js ''userId'', num 3)])
      else if data = js ''{\"type\":\"send_message\",\"content\":\"hi\"}''
      then Inr (JObject [(js ''type'', JString (js ''send_message'')),
                         (js ''content'', JString (js ''hi''))])
      else Inl SyntaxError)"

definition demo_user :: "int \<Rightarrow> string \<Rightarrow> string \<Rightarrow> user" where
  "demo_user t name st =
     \<lparr>user_id = 0, tgId = t, username = JNull, anonName = js name, status = js st,
      user_createdAt = JDate 0\<rparr>"

definition demo_db :: mem_db where
  "demo_db =
     \<lparr>users = [demo_user 42 ''Guest4821'' ''approved'', demo_user 43 ''Anon1000'' ''approved'',
               demo_user 44 ''User9999'' ''pending''],
      global_room = None, messages = [], clock = 1\<rparr>"

text \<open>Three connections; the first two have authenticated as the approved users.\<close>

definition demo_world :: "mem_db world" where
  "demo_world =
     run demo_parse mem_storage
       [Connect, Connect, Connect,
        Receive 0 (js ''{\"type\":\"auth\",\"userId\":1}''),
        Receive 1 (js ''{\"type\":\"auth\",\"userId\":2}'')]
       \<lparr>clients = [], db = demo_db\<rparr>"

definition send_hi :: jsval where
  "send_hi = JObject [(js ''type'', JString (js ''send_message'')), (js ''content'', JString (js ''hi''))]"

text \<open>
  The bot token, the values of \<open>JSON.parse\<close> at the \<open>user\<close> fields used, and three signed
  payloads (the \<open>hash\<close> of each is the HMAC of its check string under the token).  The
  other two functions of the runtime are not reached at these inputs.
\<close>

definition demo_token :: jsstring where
  "demo_token = js ''123456:TEST_TOKEN''"

definition demo_env :: env where
  "demo_env = \<lparr>TELEGRAM_BOT_TOKEN = Some demo_token, BOT_TOKEN = None\<rparr>"

definition demo_JSON_parse :: "jsstring \<Rightarrow> js_error + jsval" where
  "demo_JSON_parse data =
     (if data = js ''{\"id\":42,\"username\":\"alice\"}''
      then Inr (JObject [(js ''id'', num 42), (js ''username'', JString (js ''alice''))])
      else if data = js ''{\"id\":0}''
      then Inr (JObject [(js ''id'', num 0)])
      else if data = js ''{\"id\":\"abc\"}''
      then Inr (JObject [(js ''id'', JString (js ''abc''))])
      else demo_parse data)"

definition demo_runtime :: runtime where
  "demo_runtime =
     \<lparr>JSON_parse = demo_JSON_parse, unescapeBuffer = (\<lambda>s. s), Array_toString = (\<lambda>xs. [])\<rparr>"

definition payload_ok :: jsstring where
  "payload_ok = js ''auth_date=1700000000&user=%7B%22id%22%3A42%2C%22username%22%3A%22alice%22%7D&hash=4c77745011d252328e47d1855daee7ecfa08c10c6bf6d2ceb4f07aac6f1df514''"

definition payload_upper :: jsstring where
  "payload_upper = js ''auth_date=1700000000&user=%7B%22id%22%3A42%2C%22username%22%3A%22alice%22%7D&hash=4C77745011D252328E47D1855DAEE7ECFA08C10C6BF6D2CEB4F07AAC6F1DF514''"

definition payload_zero :: jsstring where
  "payload_zero = js ''user=%7B%22id%22%3A0%7D&hash=215b06f7e42f15314365271c32a84f8ec435745ae59a81e4cb6ecfba57d362e7''"

definition payload_abc :: jsstring where
  "payload_abc = js ''user=%7B%22id%22%3A%22abc%22%7D&hash=71d7fe0118df758ab97f3843addfda67981f65722da8760f8144a879b97a5745''"

definition request :: "jsstring \<Rightarrow> jsval" where
  "request initData = JObject [(js ''initData'', JString initData)]"

definition fresh_db :: mem_db where
  "fresh_db = \<lparr>users = [], global_room = None, messages = [], clock = 0\<rparr>"

text \<open>
  The user that the first sign-in with \<open>payload_ok\<close> creates in the in-memory store, and the
  store after it.
\<close>

definition alice :: user where
  "alice = \<lparr>user_id = 1, tgId = 42, username = JString (js ''alice''),
            anonName = js ''Guest4821'', status = js ''pending'', user_createdAt = JDate 0\<rparr>"

definition alice_db :: mem_db where
  "alice_db = \<lparr>users = [alice], global_room = None, messages = [], clock = 1\<rparr>"

text \<open>
  The time a stored message carries.  A database is chronological when every message
  carries a date, none later than the clock, and the messages stand in the order of
  their dates.
\<close>

definition stamp :: "message \<Rightarrow> int" where
  "stamp m = (case message_createdAt m of JDate t \<Rightarrow> t | _ \<Rightarrow> 0)"

definition dated :: "int \<Rightarrow> message \<Rightarrow> bool" where
  "dated now m = (case message_createdAt m of JDate t \<Rightarrow> t \<le> now | _ \<Rightarrow> False)"

definition chronological :: "mem_db \<Rightarrow> bool" where
  "chronological d = (list_all (dated (clock d)) (messages d) \<and> sorted (map stamp (messages d)))"

text \<open>
  A store with one approved user, the global room, and 52 messages in it, written at the
  times 1 to 52; and one connection, not yet authenticated.
\<close>

definition posted :: "int \<Rightarrow> message" where
  "posted k = \<lparr>message_id = k, content = js ''hi'', message_userId = Some 1,
             message_roomId = num 1, message_createdAt = JDate k, message_user = None\<rparr>"

definition history_db :: mem_db where
  "history_db =
     \<lparr>users = [demo_user 42 ''Guest4821'' ''approved''], global_room = Some \<lparr>room_id = 1\<rparr>,
      messages = map posted [1..52], clock = 53\<rparr>"

definition history_world :: "mem_db world" where
  "history_world = \<lparr>clients = [new_ws], db = history_db\<rparr>"

definition auth_1 :: jsval where
  "auth_1 = JObject [(js ''type'', JString (js ''auth'')), (js ''userId'', num 1)]"

text \<open>
  Reading a \<open>hash\<close> as the comparison of \<open>verifyInitData\<close> does: \<open>fold_hex\<close> takes a code
  unit to the character of its low byte, an upper-case \<open>A\<close> to \<open>F\<close> to its lower case;
  \<open>ends_there\<close> holds of a rest at which the decoding of hexadecimal pairs stops.
\<close>

definition fold_hex :: "int \<Rightarrow> int" where
  "fold_hex c = (let b = c mod 256 in if 65 \<le> b \<and> b \<le> 70 then b + 32 else b)"

definition ends_there :: "jsstring \<Rightarrow> bool" where
  "ends_there r = (case r of c # d # x \<Rightarrow> unhex c = None \<or> unhex d = None | _ \<Rightarrow> True)"

text \<open>
  The in-memory store with a history lookup that fails, as a database that cannot be
  reached does.
\<close>

definition history_down :: "mem_db storage" where
  "history_down = mem_storage\<lparr>getMessagesByRoomId := (\<lambda>r limit d. (Inl StorageError, d))\<rparr>"

text \<open>
  \<open>payload_ok\<close> with the first \<open>d\<close> of its \<open>hash\<close> replaced by U+0164, whose low byte is
  that of \<open>d\<close>.
\<close>

definition payload_wide :: jsstring where
  "payload_wide = js ''auth_date=1700000000&user=%7B%22id%22%3A42%2C%22username%22%3A%22alice%22%7D&hash=4c77745011'' @ [356] @ js ''252328e47d1855daee7ecfa08c10c6bf6d2ceb4f07aac6f1df514''"

section \<open>Properties of the WebSocket handlers\<close>

subsection \<open>Steps of a handler\<close>

lemma io_rel_bind:
  assumes "io_rel m Q" and "\<And>x s s'. m s = (Inr x, s') \<Longrightarrow> io_rel (f x) Q"
    and "\<And>a b c. Q a b \<Longrightarrow> Q b c \<Longrightarrow> Q a c"
  shows "io_rel (bind_io m f) Q"
  unfolding io_rel_def bind_io_def
proof (intro allI impI)
  fix s r s' assume h: "(case m s of (Inl e, s') \<Rightarrow> (Inl e, s') | (Inr x, s') \<Rightarrow> f x s') = (r, s')"
  obtain r1 s1 where m: "m s = (r1, s1)" by (cases "m s")
  have q1: "Q s s1" using assms(1) m by (auto simp: io_rel_def)
  show "Q s s'"
  proof (cases r1)
    case (Inl e) with h m q1 show ?thesis by simp
  next
    case (Inr x)
    with h m have "f x s1 = (r, s')" by simp
    moreover have "io_rel (f x) Q" using assms(2) m Inr by simp
    ultimately have "Q s1 s'" by (auto simp: io_rel_def)
    with q1 assms(3) show ?thesis by blast
  qed
qed

lemma io_rel_lift: "(\<And>s. Q s s) \<Longrightarrow> io_rel (lift_result r) Q"
  by (simp add: io_rel_def lift_result_def)

lemma io_rel_the_ws: "(\<And>s. Q s s) \<Longrightarrow> io_rel (the_ws i) Q"
  by (simp add: io_rel_def the_ws_def)

lemma io_rel_if: "(c \<Longrightarrow> io_rel a Q) \<Longrightarrow> (\<not> c \<Longrightarrow> io_rel b Q) \<Longrightarrow> io_rel (if c then a else b) Q"
  by simp

lemma io_rel_option:
  "(x = None \<Longrightarrow> io_rel a Q) \<Longrightarrow> (\<And>u. x = Some u \<Longrightarrow> io_rel (f u) Q)
     \<Longrightarrow> io_rel (case x of None \<Rightarrow> a | Some u \<Rightarrow> f u) Q"
  by (cases x) simp_all

lemma io_rel_storage: "(\<And>w d. Q w (w\<lparr>db := d\<rparr>)) \<Longrightarrow> io_rel (storage_call m) Q"
  by (auto simp: io_rel_def storage_call_def split: prod.splits)

lemma io_rel_send: "(\<And>w. Q w (send_to i frame w)) \<Longrightarrow> io_rel (send i frame) Q"
  by (auto simp: io_rel_def send_def)

lemma try_catch_rel:
  assumes "io_rel body Q" and "\<And>e s. Q s (handler e s)"
    and "\<And>a b c. Q a b \<Longrightarrow> Q b c \<Longrightarrow> Q a c"
  shows "Q s (try_catch body handler s)"
proof -
  obtain r s1 where b: "body s = (r, s1)" by (cases "body s")
  then have q: "Q s s1" using assms(1) by (auto simp: io_rel_def)
  show ?thesis
  proof (cases r)
    case (Inl e)
    then show ?thesis using b q assms(2)[of s1 e] assms(3) by (auto simp: try_catch_def)
  next
    case (Inr u)
    then show ?thesis using b q by (simp add: try_catch_def)
  qed
qed

lemma keeps_ids_refl: "keeps_ids w w" by (simp add: keeps_ids_def)
lemma keeps_ids_trans: "keeps_ids a b \<Longrightarrow> keeps_ids b c \<Longrightarrow> keeps_ids a c"
  by (simp add: keeps_ids_def)
lemma keeps_ids_db: "keeps_ids w (w\<lparr>db := d\<rparr>)" by (simp add: keeps_ids_def)

lemma ids_ok_update: "ids_ok cs \<Longrightarrow> userId c \<noteq> Some 0 \<Longrightarrow> ids_ok (cs[i := c])"
  by (auto simp: ids_ok_def dest!: set_update_subset_insert[THEN subsetD])

lemma ids_ok_nth: "ids_ok cs \<Longrightarrow> i < length cs \<Longrightarrow> userId (cs ! i) \<noteq> Some 0"
  by (auto simp: ids_ok_def)

lemma keeps_ids_send: "keeps_ids w (send_to i frame w)"
proof (cases "i < length (clients w)")
  case True
  then show ?thesis
    by (auto simp: keeps_ids_def send_to_def ws_send_def intro!: ids_ok_update dest: ids_ok_nth)
next
  case False
  then show ?thesis by (simp add: keeps_ids_def send_to_def list_update_beyond)
qed

lemma keeps_ids_set_user: "user_id u \<noteq> 0 \<Longrightarrow> io_rel (set_user i u) keeps_ids"
  by (auto simp: io_rel_def set_user_def keeps_ids_def intro!: ids_ok_update)

lemma storage_call_getUserById:
  "storage_call (getUserById S v) w = (Inr (Some u), w') \<Longrightarrow> nonzero_ids S \<Longrightarrow> user_id u \<noteq> 0"
  by (auto simp: storage_call_def nonzero_ids_def split: prod.splits)

lemma handleAuth_keeps_ids: "nonzero_ids S \<Longrightarrow> keeps_ids w (handleAuth S i msg w)"
  unfolding handleAuth_def handleAuth_try_def
  apply (rule try_catch_rel[where Q = keeps_ids])
    apply (intro io_rel_bind io_rel_lift io_rel_if io_rel_option io_rel_storage
        io_rel_send keeps_ids_refl keeps_ids_db keeps_ids_send keeps_ids_set_user)
                      apply (auto intro: keeps_ids_trans keeps_ids_send dest: storage_call_getUserById)
  done

lemma not_new_message_event [simp]: "\<not> is_new_message (event ''auth_error'' m)"
  "\<not> is_new_message (event ''error'' m)"
  by (simp_all add: is_new_message_def event_def js_def)

lemma not_new_message_auth [simp]: "\<not> is_new_message (auth_success u g)"
  "\<not> is_new_message (chat_history ms)" "\<not> is_new_message (joined_room g)"
  by (simp_all add: is_new_message_def auth_success_def chat_history_def joined_room_def js_def)

lemma is_new_message_new_message [simp]: "is_new_message (new_message m u)"
  by (simp add: is_new_message_def new_message_def)

lemma io_rel_pure: "(\<And>w. Q w (f w)) \<Longrightarrow> io_rel (\<lambda>w. (Inr (), f w)) Q"
  by (simp add: io_rel_def)

lemma userId_broadcast: "c' \<in> set (broadcast d cs) \<Longrightarrow> \<exists>c \<in> set cs. userId c' = userId c"
  by (auto simp: broadcast_def ws_send_def split: if_splits)

lemma keeps_ids_broadcast: "io_rel (broadcast_all d) keeps_ids"
  by (auto simp: io_rel_def broadcast_all_def keeps_ids_def ids_ok_def dest!: userId_broadcast)

lemma handleSendMessage_keeps_ids: "keeps_ids w (handleSendMessage S i msg w)"
  unfolding handleSendMessage_def handleSendMessage_try_def
  apply (rule try_catch_rel[where Q = keeps_ids])
    apply (intro io_rel_bind io_rel_lift io_rel_the_ws io_rel_if io_rel_storage
        io_rel_send keeps_ids_refl keeps_ids_db keeps_ids_send keeps_ids_broadcast)
                      apply (auto intro: keeps_ids_trans keeps_ids_send)
  done

lemma handleJoinRoom_keeps_ids: "io_rel (handleJoinRoom S i msg) keeps_ids"
  unfolding handleJoinRoom_def
  by (intro io_rel_bind io_rel_storage io_rel_send keeps_ids_db keeps_ids_send)
     (auto intro: keeps_ids_trans)

lemma on_message_keeps_ids: "nonzero_ids S \<Longrightarrow> keeps_ids w (on_message P S i data w)"
  unfolding on_message_def
  apply (rule try_catch_rel[where Q = keeps_ids])
    apply (intro io_rel_bind io_rel_lift io_rel_if io_rel_pure io_rel_send
        keeps_ids_refl keeps_ids_send handleAuth_keeps_ids handleSendMessage_keeps_ids
        handleJoinRoom_keeps_ids)
           apply (auto intro: keeps_ids_trans keeps_ids_send)
  done

lemma step_keeps_ids:
  assumes "nonzero_ids S"
  shows "keeps_ids w (step P S a w)"
proof (cases a)
  case Connect
  then show ?thesis by (simp add: keeps_ids_def ids_ok_def new_ws_def)
next
  case (Close i)
  show ?thesis
  proof (cases "i < length (clients w)")
    case True
    then show ?thesis using Close
      by (auto simp: keeps_ids_def intro!: ids_ok_update dest: ids_ok_nth)
  next
    case False
    then show ?thesis using Close by (simp add: keeps_ids_def list_update_beyond)
  qed
next
  case (Receive i data)
  then show ?thesis using on_message_keeps_ids[OF assms, of w P i data]
    by (auto simp: keeps_ids_def)
next
  case (External f)
  then show ?thesis by (simp add: keeps_ids_def)
qed

lemma run_snoc: "run P S (as @ [a]) w = step P S a (run P S as w)"
  by (simp add: run_def)

lemma run_keeps_ids: "nonzero_ids S \<Longrightarrow> keeps_ids w (run P S as w)"
proof (induction as rule: rev_induct)
  case Nil
  then show ?case by (simp add: run_def keeps_ids_def)
next
  case (snoc a as)
  then show ?case using step_keeps_ids[of S "run P S as w" P a]
    by (simp add: run_snoc keeps_ids_def)
qed

lemma reachable_ids_ok:
  assumes "nonzero_ids S" and "reachable P S w"
  shows "ids_ok (clients w)"
proof -
  from assms(2) obtain d as where w: "w = run P S as \<lparr>clients = [], db = d\<rparr>"
    by (auto simp: reachable_def)
  have "ids_ok (clients \<lparr>clients = [], db = d\<rparr>)" by (simp add: ids_ok_def)
  then show ?thesis using run_keeps_ids[OF assms(1), of "\<lparr>clients = [], db = d\<rparr>" P as] w
    by (simp add: keeps_ids_def)
qed

lemma quiet_refl: "quiet j w w" by (simp add: quiet_def)

lemma quiet_trans: "quiet j a b \<Longrightarrow> quiet j b c \<Longrightarrow> quiet j a c"
  by (auto simp: quiet_def)

lemma quiet_db: "quiet j w (w\<lparr>db := d\<rparr>)" by (simp add: quiet_def)

lemma quiet_send: "\<not> is_new_message frame \<Longrightarrow> quiet j w (send_to i frame w)"
  by (cases "i = j") (auto simp: quiet_def send_to_def ws_send_def)

lemma quiet_set_user: "i \<noteq> j \<Longrightarrow> io_rel (set_user i u) (quiet j)"
  by (auto simp: io_rel_def set_user_def quiet_def)

lemma quiet_broadcast: "io_rel (broadcast_all d) (quiet j)"
  by (auto simp: io_rel_def broadcast_all_def quiet_def broadcast_def ws_send_def)

lemma handleSendMessage_quiet: "quiet j w (handleSendMessage S i msg w)"
  unfolding handleSendMessage_def handleSendMessage_try_def
  apply (rule try_catch_rel[where Q = "quiet j"])
    apply (intro io_rel_bind io_rel_lift io_rel_the_ws io_rel_if io_rel_storage
        io_rel_send quiet_refl quiet_db quiet_send quiet_broadcast)
                      apply (auto intro: quiet_trans quiet_send)
  done

lemma handleAuth_quiet: "i \<noteq> j \<Longrightarrow> quiet j w (handleAuth S i msg w)"
  unfolding handleAuth_def handleAuth_try_def
  apply (rule try_catch_rel[where Q = "quiet j"])
    apply (intro io_rel_bind io_rel_lift io_rel_if io_rel_option io_rel_storage
        io_rel_send quiet_refl quiet_db quiet_send quiet_set_user)
                      apply (auto intro: quiet_trans quiet_send)
  done

lemma handleJoinRoom_quiet: "io_rel (handleJoinRoom S i msg) (quiet j)"
  unfolding handleJoinRoom_def
  by (intro io_rel_bind io_rel_storage io_rel_send quiet_db quiet_send)
     (auto intro: quiet_trans)

lemma lift_result_Inr: "lift_result r s = (Inr x, s') \<Longrightarrow> r = Inr x"
  by (simp add: lift_result_def)

lemma on_message_quiet:
  assumes "\<not> authenticates P j (Receive i data)"
  shows "quiet j w (on_message P S i data w)"
  unfolding on_message_def
  apply (rule try_catch_rel[where Q = "quiet j"])
    apply (intro io_rel_bind io_rel_lift io_rel_if io_rel_pure io_rel_send
        quiet_refl quiet_send handleSendMessage_quiet handleJoinRoom_quiet)
  using assms
           apply (auto intro: quiet_trans quiet_send handleAuth_quiet
      simp: authenticates_def dest!: lift_result_Inr)
  done

lemma step_quiet: "\<not> authenticates P j a \<Longrightarrow> quiet j w (step P S a w)"
proof (cases a)
  case Connect
  then show ?thesis by (simp add: quiet_def nth_append)
next
  case (Close i)
  then show ?thesis by (cases "i = j") (auto simp: quiet_def)
next
  case (Receive i data)
  assume "\<not> authenticates P j a"
  then show ?thesis using Receive on_message_quiet[of P j i data w S]
    by (auto simp: quiet_refl)
next
  case (External f)
  then show ?thesis by (simp add: quiet_def)
qed

lemma run_quiet: "\<forall>a \<in> set as. \<not> authenticates P j a \<Longrightarrow> quiet j w (run P S as w)"
proof (induction as rule: rev_induct)
  case Nil
  then show ?case by (simp add: run_def quiet_refl)
next
  case (snoc a as)
  then have "quiet j w (run P S as w)" and "\<not> authenticates P j a" by simp_all
  then show ?case using step_quiet[of P j a "run P S as w" S]
    by (auto simp: run_snoc intro: quiet_trans)
qed


lemma bind_lift:
  "bind_io (lift_result r) f w = (case r of Inl e \<Rightarrow> (Inl e, w) | Inr x \<Rightarrow> f x w)"
  by (simp add: bind_io_def lift_result_def split: sum.splits)

lemma bind_the_ws: "bind_io (the_ws i) f w = f (clients w ! i) w"
  by (simp add: bind_io_def the_ws_def)

lemma bind_storage:
  "bind_io (storage_call m) f w =
     (case m (db w) of (Inl e, d) \<Rightarrow> (Inl e, w\<lparr>db := d\<rparr>) | (Inr x, d) \<Rightarrow> f x (w\<lparr>db := d\<rparr>))"
  by (simp add: bind_io_def storage_call_def split: prod.splits sum.splits)

lemma bind_send: "bind_io (send i frame) f w = f () (send_to i frame w)"
  by (simp add: bind_io_def send_def)

lemma bind_set_user:
  "bind_io (set_user i u) f w =
     f () (w\<lparr>clients := (clients w)[i := (clients w ! i)\<lparr>userId := Some (user_id u),
                                                        userStatus := Some (status u)\<rparr>]\<rparr>)"
  by (simp add: bind_io_def set_user_def)

lemma handleSendMessage_cases:
  "(\<exists>m. clients (handleSendMessage S i msg w) =
        (clients w)[i := ws_send (event ''error'' m) (clients w ! i)])
   \<or> (\<exists>nm u. approved (clients w ! i) \<and> clients (handleSendMessage S i msg w) =
        broadcast (new_message nm u) (clients w))"
  unfolding handleSendMessage_def handleSendMessage_try_def try_catch_def
  by (simp add: bind_lift bind_the_ws bind_storage send_def send_to_def approved_def
      broadcast_all_def split: prod.splits sum.splits) blast

lemma handleAuth_not_approved:
  assumes "get_prop m (js ''userId'') = Inr v" and "truthy v"
    and "getUserById S v (db w) = (Inr (Some u), d')" and "status u \<noteq> js ''approved''"
  shows "handleAuth S j m w =
           send_to j (event ''auth_error'' ''User not approved for chat'')
             (w\<lparr>db := d', clients := (clients w)[j := (clients w ! j)
                  \<lparr>userId := Some (user_id u), userStatus := Some (status u)\<rparr>]\<rparr>)"
  using assms
  by (simp add: handleAuth_def handleAuth_try_def try_catch_def bind_lift bind_storage
      bind_set_user send_def)

lemma delivered_broadcast:
  assumes "j < length cs" and "userId (cs ! j) \<noteq> Some 0"
  shows "drop (length (sent (cs ! j))) (sent (broadcast d cs ! j)) =
           (if readyState (cs ! j) = OPEN \<and> userId (cs ! j) \<noteq> None
               \<and> userStatus (cs ! j) = Some (js ''approved'') then [d] else [])"
  using assms by (auto simp: broadcast_def ws_send_def userId_truthy_def split: option.splits)

lemma nonzero_ids_mem_storage: "nonzero_ids mem_storage"
  by (auto simp: nonzero_ids_def mem_storage_def mem_getUserById_def row_user_def
      split: jsval.splits jsnum.splits if_splits)

subsection \<open>Sending a message from a session that is not approved\<close>

text \<open>
  C3.  A session with no bound user id (or the id 0), or whose cached status is not
  \<open>approved\<close>, handles \<open>send_message\<close> by sending itself the one error event
  \<open>Not authenticated or not approved\<close>.  The resulting state does not depend on the
  storage: the database is the one before, so no storage operation (\<open>createMessage\<close> among
  them) has run, and no other session's frames have changed, so nothing was broadcast.
\<close>

theorem send_message_not_approved:
  assumes "i < length (clients w)"
    and "\<not> approved (clients w ! i)"
  shows "handleSendMessage S i msg w =
           w\<lparr>clients := (clients w)[i := (clients w ! i)
                \<lparr>sent := sent (clients w ! i)
                   @ [event ''error'' ''Not authenticated or not approved'']\<rparr>]\<rparr>"
  using assms
  by (auto simp: handleSendMessage_def handleSendMessage_try_def try_catch_def bind_io_def
      the_ws_def send_def send_to_def ws_send_def approved_def)

text \<open>The third connection of \<open>demo_world\<close> has not authenticated.\<close>

theorem send_message_not_approved_witness:
  "2 < length (clients demo_world) \<and> \<not> approved (clients demo_world ! 2) \<and>
   handleSendMessage mem_storage 2 send_hi demo_world =
     demo_world\<lparr>clients := (clients demo_world)[2 := (clients demo_world ! 2)
        \<lparr>sent := sent (clients demo_world ! 2)
           @ [event ''error'' ''Not authenticated or not approved'']\<rparr>]\<rparr>"
proof -
  have h1: "2 < length (clients demo_world)" by code_simp
  have h2: "\<not> approved (clients demo_world ! 2)" by code_simp
  show ?thesis using send_message_not_approved[OF h1 h2] h1 h2 by simp
qed

subsection \<open>Who is handed a broadcast\<close>

text \<open>
  C2.  In every state the server can reach (with a storage whose user ids are not 0), a
  \<open>send_message\<close> either ends in an error event to the sender, and then no session is
  handed anything else, or it broadcasts one \<open>new_message\<close> frame, and then a session is
  handed that frame if and only if its socket is open, it has a bound user id and its
  cached status is \<open>approved\<close>; it is handed nothing otherwise.  In particular: when a
  session authenticates as a user whose status is \<open>pending\<close>, then whatever happens
  afterwards, as long as that session does not authenticate again, it is handed no
  \<open>new_message\<close>.
\<close>

theorem broadcast_recipients:
  fixes S :: "'db storage"
  assumes "nonzero_ids S" and "reachable P S w" and "i < length (clients w)"
  shows "((\<exists>m. clients (handleSendMessage S i msg w) =
               (clients w)[i := ws_send (event ''error'' m) (clients w ! i)])
          \<or> (\<exists>d. is_new_message d \<and>
                (\<forall>j < length (clients w).
                   delivered w (handleSendMessage S i msg w) j =
                     (if readyState (clients w ! j) = OPEN \<and> userId (clients w ! j) \<noteq> None
                         \<and> userStatus (clients w ! j) = Some (js ''approved'')
                      then [d] else []))))
       \<and> (\<forall>j m v u d' as.
             j < length (clients w) \<and> get_prop m (js ''userId'') = Inr v \<and> truthy v
             \<and> getUserById S v (db w) = (Inr (Some u), d') \<and> status u = js ''pending''
             \<and> (\<forall>a \<in> set as. \<not> authenticates P j a)
             \<longrightarrow> filter is_new_message (sent (clients (run P S as (handleAuth S j m w)) ! j))
                   = filter is_new_message (sent (clients w ! j)))"
proof (intro conjI allI impI)
  have ok: "ids_ok (clients w)" using assms(1,2) by (rule reachable_ids_ok)
  from handleSendMessage_cases[of S i msg w]
  show "(\<exists>m. clients (handleSendMessage S i msg w) =
               (clients w)[i := ws_send (event ''error'' m) (clients w ! i)])
          \<or> (\<exists>d. is_new_message d \<and>
                (\<forall>j < length (clients w).
                   delivered w (handleSendMessage S i msg w) j =
                     (if readyState (clients w ! j) = OPEN \<and> userId (clients w ! j) \<noteq> None
                         \<and> userStatus (clients w ! j) = Some (js ''approved'')
                      then [d] else [])))"
  proof
    assume "\<exists>m. clients (handleSendMessage S i msg w) =
        (clients w)[i := ws_send (event ''error'' m) (clients w ! i)]"
    then show ?thesis by blast
  next
    assume "\<exists>nm u. approved (clients w ! i) \<and> clients (handleSendMessage S i msg w) =
        broadcast (new_message nm u) (clients w)"
    then obtain nm u where b: "clients (handleSendMessage S i msg w) =
        broadcast (new_message nm u) (clients w)" by blast
    have "\<forall>j < length (clients w).
            delivered w (handleSendMessage S i msg w) j =
              (if readyState (clients w ! j) = OPEN \<and> userId (clients w ! j) \<noteq> None
                  \<and> userStatus (clients w ! j) = Some (js ''approved'')
               then [new_message nm u] else [])"
    proof (intro allI impI)
      fix j assume j: "j < length (clients w)"
      then have "userId (clients w ! j) \<noteq> Some 0" using ok by (rule ids_ok_nth[rotated])
      with j show "delivered w (handleSendMessage S i msg w) j =
              (if readyState (clients w ! j) = OPEN \<and> userId (clients w ! j) \<noteq> None
                  \<and> userStatus (clients w ! j) = Some (js ''approved'')
               then [new_message nm u] else [])"
        unfolding delivered_def b by (rule delivered_broadcast)
    qed
    then show ?thesis using is_new_message_new_message by blast
  qed
next
  fix j m v u d' and as :: "'db action list"
  assume h: "j < length (clients w) \<and> get_prop m (js ''userId'') = Inr v \<and> truthy v
             \<and> getUserById S v (db w) = (Inr (Some u), d') \<and> status u = js ''pending''
             \<and> (\<forall>a \<in> set as. \<not> authenticates P j a)"
  define w1 where "w1 = handleAuth S j m w"
  have ne: "status u \<noteq> js ''approved''" using h by (simp add: js_def)
  have w1: "w1 = send_to j (event ''auth_error'' ''User not approved for chat'')
             (w\<lparr>db := d', clients := (clients w)[j := (clients w ! j)
                  \<lparr>userId := Some (user_id u), userStatus := Some (status u)\<rparr>]\<rparr>)"
    unfolding w1_def using h ne by (intro handleAuth_not_approved) auto
  have len: "j < length (clients w1)" using h by (simp add: w1 send_to_def)
  have st: "userStatus (clients w1 ! j) \<noteq> Some (js ''approved'')"
    using h ne by (simp add: w1 send_to_def ws_send_def)
  have f1: "filter is_new_message (sent (clients w1 ! j)) = filter is_new_message (sent (clients w ! j))"
    using h by (simp add: w1 send_to_def ws_send_def)
  have "quiet j w1 (run P S as w1)" using h by (intro run_quiet) simp
  then have "filter is_new_message (sent (clients (run P S as w1) ! j))
      = filter is_new_message (sent (clients w1 ! j))"
    using len st by (simp add: quiet_def)
  then show "filter is_new_message (sent (clients (run P S as (handleAuth S j m w)) ! j))
                   = filter is_new_message (sent (clients w ! j))"
    using f1 by (simp add: w1_def)
qed

theorem broadcast_recipients_witness:
  "nonzero_ids mem_storage \<and> reachable demo_parse mem_storage demo_world
   \<and> 0 < length (clients demo_world)
   \<and> ((\<exists>m. clients (handleSendMessage mem_storage 0 send_hi demo_world) =
               (clients demo_world)[0 := ws_send (event ''error'' m) (clients demo_world ! 0)])
       \<or> (\<exists>d. is_new_message d \<and>
             (\<forall>j < length (clients demo_world).
                delivered demo_world (handleSendMessage mem_storage 0 send_hi demo_world) j =
                  (if readyState (clients demo_world ! j) = OPEN
                      \<and> userId (clients demo_world ! j) \<noteq> None
                      \<and> userStatus (clients demo_world ! j) = Some (js ''approved'')
                   then [d] else []))))
   \<and> filter is_new_message
        (sent (clients (run demo_parse mem_storage
                         [Receive 0 (js ''{\"type\":\"send_message\",\"content\":\"hi\"}'')]
                         (handleAuth mem_storage 2
                            (JObject [(js ''type'', JString (js ''auth'')), (js ''userId'', num 3)])
                            demo_world)) ! 2))
      = filter is_new_message (sent (clients demo_world ! 2))
   \<and> map (\<lambda>j. length (delivered demo_world
                         (handleSendMessage mem_storage 0 send_hi demo_world) j)) [0, 1, 2]
      = [1, 1, 0]"
proof -
  have h1: "nonzero_ids mem_storage" by (rule nonzero_ids_mem_storage)
  have h2: "reachable demo_parse mem_storage demo_world"
    unfolding reachable_def demo_world_def by blast
  have h3: "0 < length (clients demo_world)" by code_simp
  note t = broadcast_recipients[OF h1 h2 h3, of send_hi]
  have a: "2 < length (clients demo_world)" by code_simp
  have b: "get_prop (JObject [(js ''type'', JString (js ''auth'')), (js ''userId'', num 3)])
             (js ''userId'') = Inr (num 3)" by code_simp
  have c: "truthy (num 3)" by code_simp
  have d: "getUserById mem_storage (num 3) (db demo_world)
             = (Inr (Some ((demo_user 44 ''User9999'' ''pending'')\<lparr>user_id := 3\<rparr>)), db demo_world)"
    by code_simp
  have e: "status ((demo_user 44 ''User9999'' ''pending'')\<lparr>user_id := 3\<rparr>) = js ''pending''"
    by code_simp
  have f: "\<forall>a \<in> set [Receive 0 (js ''{\"type\":\"send_message\",\"content\":\"hi\"}'')
                        :: mem_db action].
             \<not> authenticates demo_parse 2 a"
    by (simp add: authenticates_def)
  have g: "map (\<lambda>j. length (delivered demo_world
                         (handleSendMessage mem_storage 0 send_hi demo_world) j)) [0, 1, 2]
      = [1, 1, 0]" by code_simp
  from t have t1: "(\<exists>m. clients (handleSendMessage mem_storage 0 send_hi demo_world) =
               (clients demo_world)[0 := ws_send (event ''error'' m) (clients demo_world ! 0)])
       \<or> (\<exists>d. is_new_message d \<and>
             (\<forall>j < length (clients demo_world).
                delivered demo_world (handleSendMessage mem_storage 0 send_hi demo_world) j =
                  (if readyState (clients demo_world ! j) = OPEN
                      \<and> userId (clients demo_world ! j) \<noteq> None
                      \<and> userStatus (clients demo_world ! j) = Some (js ''approved'')
                   then [d] else [])))" by (rule conjunct1)
  from t have t2: "filter is_new_message
        (sent (clients (run demo_parse mem_storage
                         [Receive 0 (js ''{\"type\":\"send_message\",\"content\":\"hi\"}'')]
                         (handleAuth mem_storage 2
                            (JObject [(js ''type'', JString (js ''auth'')), (js ''userId'', num 3)])
                            demo_world)) ! 2))
      = filter is_new_message (sent (clients demo_world ! 2))"
    using a b c d e f by blast
  show ?thesis using h1 h2 h3 t1 t2 g by blast
qed


section \<open>Properties of the HTTP routes\<close>

subsection \<open>Digests, hexadecimal strings and the check string\<close>

lemma byte_list_word_bytes: "byte_list (word_bytes w)"
  by (simp add: byte_list_def word_bytes_def)

lemma byte_list_sha256_blocks: "byte_list (sha256_blocks bs)"
  using byte_list_word_bytes by (auto simp: byte_list_def sha256_blocks_def)

lemma byte_list_sha256: "byte_list (sha256 m)"
  by (simp add: sha256_def Let_def byte_list_sha256_blocks)

lemma byte_list_hmac: "byte_list (hmac_sha256 k m)"
  by (simp add: hmac_sha256_def Let_def byte_list_sha256)

lemma unhex_hex_char: "0 \<le> n \<Longrightarrow> n < 16 \<Longrightarrow> unhex (hex_char n) = Some n"
  by (auto simp: unhex_def hex_digit_def hex_char_def)

lemma Buffer_from_hex_encode: "byte_list bs \<Longrightarrow> Buffer_from_hex (hex_encode bs) = bs"
proof (induction bs)
  case Nil
  then show ?case by (simp add: hex_encode_def)
next
  case (Cons b bs)
  then have b: "0 \<le> b" "b < 256" and bs: "byte_list bs" by (auto simp: byte_list_def)
  have "0 \<le> b div 16 \<and> b div 16 < 16" using b by presburger
  then have d: "unhex (hex_char (b div 16)) = Some (b div 16)"
    by (intro unhex_hex_char) auto
  have m: "unhex (hex_char (b mod 16)) = Some (b mod 16)"
    by (intro unhex_hex_char) auto
  have "hex_encode (b # bs) = hex_char (b div 16) # hex_char (b mod 16) # hex_encode bs"
    by (simp add: hex_encode_def)
  then show ?case using d m Cons.IH[OF bs] by simp
qed

text \<open>The keys of \<open>kv\<close> are distinct, so sorting them is sorting a set.\<close>

lemma fst_assign: "fst ` set (assign kv k v) = insert k (fst ` set kv)"
  by (induction kv k v rule: assign.induct) auto

lemma distinct_assign: "distinct (map fst kv) \<Longrightarrow> distinct (map fst (assign kv k v))"
proof (induction kv k v rule: assign.induct)
  case (1 k v)
  then show ?case by simp
next
  case (2 k' v' kv k v)
  show ?case
  proof (cases "k' = k")
    case True
    then show ?thesis using 2 by simp
  next
    case False
    then have "k' \<notin> fst ` set (assign kv k v)" using 2(2) by (simp add: fst_assign)
    then show ?thesis using False 2 by simp
  qed
qed

lemma map_of_assign: "map_of (assign kv k v) = (map_of kv)(k \<mapsto> v)"
  by (induction kv k v rule: assign.induct) auto

lemma distinct_obj_set: "distinct (map fst kv) \<Longrightarrow> distinct (map fst (obj_set kv k v))"
  by (simp add: obj_set_def distinct_assign)

lemma distinct_parse_params:
  "distinct (map fst kv) \<Longrightarrow> parse_params ps kv = Inr kv' \<Longrightarrow> distinct (map fst kv')"
proof (induction ps arbitrary: kv)
  case Nil
  then show ?case by simp
next
  case (Cons p ps)
  define k where "k = (case p of [] \<Rightarrow> [] | k # r \<Rightarrow> k)"
  define v where "v = (case p of k # v # r \<Rightarrow> v | _ \<Rightarrow> [])"
  show ?case
  proof (cases "k = []")
    case True
    then have "parse_params ps kv = Inr kv'" using Cons.prems(2) by (simp add: k_def)
    then show ?thesis using Cons.IH Cons.prems(1) by blast
  next
    case False
    then obtain d where d: "decodeURIComponent v = Inr d"
      and r: "parse_params ps (obj_set kv k d) = Inr kv'"
      using Cons.prems(2) by (auto simp: k_def v_def split: sum.splits)
    show ?thesis using Cons.IH[OF distinct_obj_set[OF Cons.prems(1)] r] .
  qed
qed

lemma distinct_parse_kv: "parse_kv s = Inr kv \<Longrightarrow> distinct (map fst kv)"
  using distinct_parse_params[of "[]" "map (split_on 61) (split_on 38 s)" kv]
  by (simp add: parse_kv_def)

lemma sort_distinct_filter:
  "distinct xs \<Longrightarrow> sort (filter P xs) = sorted_list_of_set {x \<in> set xs. P x}"
proof -
  assume "distinct xs"
  then have "distinct (filter P xs)" by simp
  then have r: "remdups (filter P xs) = filter P xs" by (rule distinct_remdups_id)
  have "sorted_list_of_set {x \<in> set xs. P x} = sorted_list_of_set (set (filter P xs))"
    by simp
  also have "\<dots> = sort (remdups (filter P xs))"
    by (rule sorted_list_of_set_sort_remdups)
  also have "\<dots> = sort (filter P xs)" by (simp only: r)
  finally show ?thesis by (rule sym)
qed

lemma data_check_string_eq:
  assumes "distinct (map fst kv)"
  shows "data_check_string kv =
           join [10] (map (\<lambda>k. k @ js ''='' @ the (map_of kv k))
                        (sorted_list_of_set (fst ` set kv - {js ''hash''})))"
proof -
  have s: "{x \<in> set (map fst kv). x \<noteq> js ''hash''} = fst ` set kv - {js ''hash''}" by auto
  have k: "sort (filter (\<lambda>k. k \<noteq> js ''hash'') (map fst kv))
        = sorted_list_of_set (fst ` set kv - {js ''hash''})"
    using sort_distinct_filter[OF assms, of "\<lambda>k. k \<noteq> js ''hash''"] s by simp
  have "\<And>k. k \<in> fst ` set kv \<Longrightarrow> (case map_of kv k of Some v \<Rightarrow> v | None \<Rightarrow> []) = the (map_of kv k)"
    by (force simp: map_of_eq_None_iff split: option.splits)
  then have "map (\<lambda>k. k @ js ''='' @ (case map_of kv k of Some v \<Rightarrow> v | None \<Rightarrow> []))
                 (sorted_list_of_set (fst ` set kv - {js ''hash''}))
           = map (\<lambda>k. k @ js ''='' @ the (map_of kv k))
                 (sorted_list_of_set (fst ` set kv - {js ''hash''}))"
    by (intro map_cong) auto
  then show ?thesis unfolding data_check_string_def Let_def k by (rule arg_cong)
qed

lemma verify_sorted_iff:
  "verifyInitData (JString s) tok \<longleftrightarrow>
     (\<exists>kv h. parse_kv s = Inr kv \<and> map_of kv (js ''hash'') = Some h \<and> h \<noteq> []
        \<and> Buffer_from_hex h =
            hmac_sha256 (sha256 (utf8 tok))
              (utf8 (join [10] (map (\<lambda>k. k @ js ''='' @ the (map_of kv k))
                                   (sorted_list_of_set (fst ` set kv - {js ''hash''}))))))"
proof (cases "parse_kv s")
  case (Inl e)
  then show ?thesis by (simp add: verifyInitData_def verifyInitData_try_def)
next
  case (Inr kv)
  note d = data_check_string_eq[OF distinct_parse_kv[OF Inr]]
  show ?thesis
  proof (cases "map_of kv (js ''hash'')")
    case None
    then show ?thesis using Inr by (simp add: verifyInitData_def verifyInitData_try_def)
  next
    case (Some h)
    then show ?thesis using Inr d
      by (auto simp: verifyInitData_def verifyInitData_try_def Let_def timingSafeEqual_def
          Buffer_from_hex_encode byte_list_hmac)
  qed
qed

lemma verify_string: "verifyInitData x tok \<Longrightarrow> \<exists>s. x = JString s \<and> s \<noteq> []"
proof (cases x)
  case (JString s)
  assume v: "verifyInitData x tok"
  have "s \<noteq> []"
  proof
    assume "s = []"
    then have "parse_kv s = Inr []" by (simp add: parse_kv_def)
    then show False using v JString by (simp add: verifyInitData_def verifyInitData_try_def)
  qed
  then show ?thesis using JString by simp
qed (simp_all add: verifyInitData_def verifyInitData_try_def)

lemma bind_lift_db:
  "bind_io (lift_result r) f d = (case r of Inl e \<Rightarrow> (Inl e, d) | Inr x \<Rightarrow> f x d)"
  by (simp add: bind_io_def lift_result_def split: sum.splits)

lemma auth_post_verified:
  assumes "get_prop req_body (js ''initData'') = Inr x" and "bot_token e \<noteq> []"
    and "verifyInitData x (bot_token e)"
  shows "auth_post L S e rnd req_body d =
           (case auth_user L S rnd x d of
              (Inr res, d') \<Rightarrow> (res, d')
            | (Inl err, d') \<Rightarrow> (error_response 500 ''Authentication failed'', d'))"
proof -
  from verify_string[OF assms(3)] have "truthy x" by auto
  then show ?thesis using assms
    by (simp add: auth_post_def auth_try_def bind_lift_db Let_def)
qed

lemma auth_user_400:
  assumes "\<not> truthy (user_data L x) \<or> \<not> truthy (id_of (user_data L x))"
  shows "auth_user L S rnd x d = (Inr (error_response 400 ''Invalid user data in initData''), d)"
  using assms by (auto simp: auth_user_def Let_def ret_def)

lemma auth_user_500:
  assumes "truthy (user_data L x)" and "truthy (id_of (user_data L x))"
    and "BigInt L (id_of (user_data L x)) = Inl err"
  shows "auth_user L S rnd x d = (Inl err, d)"
  using assms by (simp add: auth_user_def Let_def bind_lift_db)

text \<open>Every outcome of \<open>auth_user\<close>.\<close>

lemma auth_user_cases:
  "auth_user L S rnd x d = (r, d') \<Longrightarrow>
     (\<exists>err. r = Inl err) \<or> r = Inr (error_response 400 ''Invalid user data in initData'')
     \<or> (\<exists>u. r = Inr (auth_ok u))"
  by (auto simp: auth_user_def Let_def ret_def bind_lift_db bind_io_def
      split: if_splits sum.splits prod.splits option.splits)

lemma status_error_response [simp]: "res_status (error_response n m) = n"
  by (simp add: error_response_def)

lemma auth_post_200:
  assumes "auth_post L S e rnd req_body d = (res, d')" and "res_status res = 200"
  shows "\<exists>u. res = auth_ok u"
proof -
  obtain r d1 where t: "auth_try L S e rnd req_body d = (r, d1)" by (cases "auth_try L S e rnd req_body d")
  show ?thesis
  proof (cases r)
    case (Inl err)
    then show ?thesis using assms t by (auto simp: auth_post_def)
  next
    case (Inr res')
    then have eq: "res' = res" using assms t by (simp add: auth_post_def)
    have "res_status res' \<noteq> 200 \<or> (\<exists>u. res' = auth_ok u)"
      using t Inr
      by (auto simp: auth_try_def bind_lift_db ret_def Let_def dest!: auth_user_cases
          split: sum.splits if_splits)
    then show ?thesis using eq assms(2) by auto
  qed
qed

lemma length_compress: "length hs = 8 \<Longrightarrow> length (compress hs blk) = 8"
  by (simp add: compress_def list_of_def split: prod.splits)

lemma length_foldl_compress: "length hs = 8 \<Longrightarrow> length (foldl compress hs bs) = 8"
  by (induction bs arbitrary: hs) (simp_all add: length_compress)

lemma length_concat_word_bytes: "length (concat (map word_bytes ws)) = 4 * length ws"
  by (induction ws) (simp_all add: word_bytes_def)

lemma length_sha256: "length (sha256 m) = 32"
  by (simp add: sha256_def sha256_blocks_def Let_def length_concat_word_bytes
      length_foldl_compress sha_H0_def)

lemma length_hmac: "length (hmac_sha256 k m) = 32"
  by (simp add: hmac_sha256_def Let_def length_sha256)

lemma verify_code_iff:
  "verifyInitData (JString s) tok \<longleftrightarrow>
     (\<exists>kv h. parse_kv s = Inr kv \<and> map_of kv (js ''hash'') = Some h \<and> h \<noteq> []
        \<and> Buffer_from_hex h = hmac_sha256 (sha256 (utf8 tok)) (utf8 (data_check_string kv)))"
  by (auto simp: verifyInitData_def verifyInitData_try_def Let_def timingSafeEqual_def
      Buffer_from_hex_encode byte_list_hmac split: sum.splits option.splits)

lemma verify_not_string: "\<forall>s. x \<noteq> JString s \<Longrightarrow> verifyInitData_try x tok = Inl TypeError"
  by (cases x) (simp_all add: verifyInitData_try_def)

lemma hex_char_lower: "0 \<le> n \<Longrightarrow> n < 16 \<Longrightarrow> hex_char n \<noteq> 67"
  by (auto simp: hex_char_def)

lemma hex_encode_no_upper: "byte_list bs \<Longrightarrow> 67 \<notin> set (hex_encode bs)"
proof (induction bs)
  case Nil
  then show ?case by (simp add: hex_encode_def)
next
  case (Cons b bs)
  then have b: "0 \<le> b" "b < 256" and bs: "byte_list bs" by (auto simp: byte_list_def)
  have "0 \<le> b div 16 \<and> b div 16 < 16" using b by presburger
  then have 1: "hex_char (b div 16) \<noteq> 67" by (intro hex_char_lower) auto
  have 2: "hex_char (b mod 16) \<noteq> 67" by (intro hex_char_lower) auto
  have "hex_encode (b # bs) = hex_char (b div 16) # hex_char (b mod 16) # hex_encode bs"
    by (simp add: hex_encode_def)
  then show ?case using 1 2 Cons.IH[OF bs] by auto
qed

lemma verify_ok: "verifyInitData (JString payload_ok) demo_token"
  by code_simp

lemma upper_like_ok:
  "(case (parse_kv payload_upper, parse_kv payload_ok) of
      (Inr kv', Inr kv) \<Rightarrow>
        (case (map_of kv' (js ''hash''), map_of kv (js ''hash'')) of
           (Some h', Some h) \<Rightarrow>
             h' \<noteq> [] \<and> Buffer_from_hex h' = Buffer_from_hex h
             \<and> data_check_string kv' = data_check_string kv \<and> 67 \<in> set h'
         | _ \<Rightarrow> False)
    | _ \<Rightarrow> False)"
  by code_simp


text \<open>What \<open>Buffer.from(h, 'hex')\<close> returns, said of the characters of \<open>h\<close>.\<close>

lemma unhex_range: "unhex c = Some a \<Longrightarrow> 0 \<le> a \<and> a < 16"
  by (auto simp: unhex_def hex_digit_def split: if_splits)

lemma unhex_fold_hex:
  assumes "0 \<le> n" and "n < 16"
  shows "unhex c = Some n \<longleftrightarrow> fold_hex c = hex_char n"
proof -
  have m: "0 \<le> c mod 256" "c mod 256 < 256" by simp_all
  show ?thesis using assms m
    by (auto simp: unhex_def hex_digit_def fold_hex_def hex_char_def Let_def split: if_splits)
qed

lemma nibbles:
  fixes x y b :: int
  assumes "0 \<le> y" and "y < 16" and "16 * x + y = b"
  shows "x = b div 16 \<and> y = b mod 16"
proof -
  have "(16 * x + y) div 16 = x" "(16 * x + y) mod 16 = y" using assms(1,2) by simp_all
  then show ?thesis unfolding assms(3) by simp
qed

lemma byte_pair:
  assumes "0 \<le> b" and "b < 256"
  shows "(unhex c = Some x \<and> unhex d = Some y \<and> 16 * x + y = b)
           \<longleftrightarrow> (x = b div 16 \<and> y = b mod 16 \<and> fold_hex c = hex_char (b div 16)
                  \<and> fold_hex d = hex_char (b mod 16))"
proof -
  have r: "0 \<le> b div 16 \<and> b div 16 < 16" using assms by presburger
  have r': "0 \<le> b mod 16 \<and> b mod 16 < 16" by simp
  show ?thesis
  proof
    assume h: "unhex c = Some x \<and> unhex d = Some y \<and> 16 * x + y = b"
    then have "0 \<le> y" "y < 16" using unhex_range[of d y] by simp_all
    then have "x = b div 16 \<and> y = b mod 16" using h by (intro nibbles) simp_all
    then have "x = b div 16" "y = b mod 16" by simp_all
    then show "x = b div 16 \<and> y = b mod 16 \<and> fold_hex c = hex_char (b div 16)
                  \<and> fold_hex d = hex_char (b mod 16)"
      using h unhex_fold_hex r r' by metis
  next
    assume h: "x = b div 16 \<and> y = b mod 16 \<and> fold_hex c = hex_char (b div 16)
                  \<and> fold_hex d = hex_char (b mod 16)"
    then have "unhex c = Some x" "unhex d = Some y" using unhex_fold_hex r r' by metis+
    moreover have "16 * x + y = b" using h by simp
    ultimately show "unhex c = Some x \<and> unhex d = Some y \<and> 16 * x + y = b" by simp
  qed
qed

lemma Buffer_from_hex_Nil: "Buffer_from_hex h = [] \<longleftrightarrow> ends_there h"
  by (cases h rule: Buffer_from_hex.cases)
     (auto simp: ends_there_def split: option.splits list.splits)

lemma Buffer_from_hex_iff:
  "byte_list bs \<Longrightarrow>
     Buffer_from_hex h = bs \<longleftrightarrow>
       map fold_hex (take (2 * length bs) h) = hex_encode bs \<and> ends_there (drop (2 * length bs) h)"
proof (induction bs arbitrary: h)
  case Nil
  then show ?case by (simp add: Buffer_from_hex_Nil hex_encode_def)
next
  case (Cons b bs)
  then have b: "0 \<le> b" "b < 256" and bs: "byte_list bs" by (auto simp: byte_list_def)
  have e: "hex_encode (b # bs) = hex_char (b div 16) # hex_char (b mod 16) # hex_encode bs"
    by (simp add: hex_encode_def)
  show ?case
  proof (cases "\<exists>c d cs. h = c # d # cs")
    case True
    then obtain c d cs where 1: "h = c # d # cs" by blast
    have "Buffer_from_hex h = b # bs \<longleftrightarrow>
            (\<exists>x y. unhex c = Some x \<and> unhex d = Some y \<and> 16 * x + y = b) \<and> Buffer_from_hex cs = bs"
      using 1 by (auto split: option.splits)
    also have "(\<exists>x y. unhex c = Some x \<and> unhex d = Some y \<and> 16 * x + y = b) \<longleftrightarrow>
            fold_hex c = hex_char (b div 16) \<and> fold_hex d = hex_char (b mod 16)"
      using byte_pair[OF b] by blast
    finally show ?thesis using 1 e Cons.IH[OF bs, of cs] by auto
  next
    case False
    then have "h = [] \<or> (\<exists>v. h = [v])" by (cases h rule: Buffer_from_hex.cases) auto
    then show ?thesis by (auto simp: e)
  qed
qed

subsection \<open>What verification accepts\<close>

text \<open>
  Claim C1, as the code has it.  \<open>verifyInitData\<close> returns true if and only if the payload
  parses (no entry with a key has an undecodable value) to a map with a \<open>hash\<close> such that
  the first 64 code units of the hash, each taken by its low byte and with \<open>A\<close> to \<open>F\<close>
  read as \<open>a\<close> to \<open>f\<close>, are the lower-case hexadecimal HMAC-SHA256, keyed by the SHA-256
  of the token, of the check string, and the hash has at most one code unit more or goes
  on with a pair that is not of hexadecimal digits.  The check string is the remaining
  keys in the order of their UTF-16 code units, each rendered as \<open>key=value\<close>, joined by
  single newlines.
\<close>

theorem verify_iff:
  "verifyInitData (JString s) tok \<longleftrightarrow>
     (\<exists>kv h. parse_kv s = Inr kv \<and> map_of kv (js ''hash'') = Some h
        \<and> map fold_hex (take 64 h) =
            hex_encode (hmac_sha256 (sha256 (utf8 tok))
              (utf8 (join [10] (map (\<lambda>k. k @ js ''='' @ the (map_of kv k))
                                   (sorted_list_of_set (fst ` set kv - {js ''hash''}))))))
        \<and> ends_there (drop 64 h))"
proof -
  have n: "hex_encode (hmac_sha256 k m) \<noteq> []" for k m
    using length_hmac[of k m] by (cases "hmac_sha256 k m") (auto simp: hex_encode_def)
  have ne: "map fold_hex (take 64 h) = hex_encode (hmac_sha256 k m) \<Longrightarrow> h \<noteq> []" for h k m
    using n[of k m] by auto
  have r: "Buffer_from_hex h = hmac_sha256 k m \<longleftrightarrow>
             map fold_hex (take 64 h) = hex_encode (hmac_sha256 k m) \<and> ends_there (drop 64 h)"
    for h k m
    using Buffer_from_hex_iff[OF byte_list_hmac, of h k m] by (simp add: length_hmac)
  show ?thesis unfolding verify_sorted_iff r using ne by blast
qed

theorem verify_iff_witness:
  "verifyInitData (JString payload_ok) demo_token \<and>
     (\<exists>kv h. parse_kv payload_ok = Inr kv \<and> map_of kv (js ''hash'') = Some h
        \<and> map fold_hex (take 64 h) =
            hex_encode (hmac_sha256 (sha256 (utf8 demo_token))
              (utf8 (join [10] (map (\<lambda>k. k @ js ''='' @ the (map_of kv k))
                                   (sorted_list_of_set (fst ` set kv - {js ''hash''}))))))
        \<and> ends_there (drop 64 h))"
  using verify_ok verify_iff[of payload_ok demo_token] by blast

text \<open>
  The claim as the spec states it fails on a \<open>hash\<close> written in upper case: it is
  accepted, and it is not the lower-case hexadecimal digest.
\<close>

theorem verify_upper_case_counterexample:
  "verifyInitData (JString payload_upper) demo_token \<and> \<not> claimed_verify payload_upper demo_token"
proof -
  from verify_ok obtain kv h where ok: "parse_kv payload_ok = Inr kv"
      "map_of kv (js ''hash'') = Some h"
      "Buffer_from_hex h = hmac_sha256 (sha256 (utf8 demo_token)) (utf8 (data_check_string kv))"
    by (auto simp: verify_code_iff)
  from upper_like_ok ok obtain kv' h' where up: "parse_kv payload_upper = Inr kv'"
      "map_of kv' (js ''hash'') = Some h'" "h' \<noteq> []" "Buffer_from_hex h' = Buffer_from_hex h"
      "data_check_string kv' = data_check_string kv" "67 \<in> set h'"
    by (auto split: sum.splits option.splits)
  have v: "verifyInitData (JString payload_upper) demo_token"
    using ok up by (auto simp: verify_code_iff)
  have "\<not> claimed_verify payload_upper demo_token"
  proof
    assume "claimed_verify payload_upper demo_token"
    then have "h' = hex_encode (hmac_sha256 (sha256 (utf8 demo_token))
                                  (utf8 (check_string_bytewise kv')))"
      using up by (simp add: claimed_verify_def)
    then show False using up(6) hex_encode_no_upper[OF byte_list_hmac] by metis
  qed
  with v show ?thesis by simp
qed

text \<open>A code unit above 255 in the \<open>hash\<close> is read by its low byte: \<open>payload_wide\<close> verifies.\<close>

lemma wide_like_ok:
  "(case (parse_kv payload_wide, parse_kv payload_ok) of
      (Inr kv', Inr kv) \<Rightarrow>
        (case (map_of kv' (js ''hash''), map_of kv (js ''hash'')) of
           (Some h', Some h) \<Rightarrow>
             h' \<noteq> [] \<and> Buffer_from_hex h' = Buffer_from_hex h
             \<and> data_check_string kv' = data_check_string kv \<and> 356 \<in> set h'
         | _ \<Rightarrow> False)
    | _ \<Rightarrow> False)"
  by code_simp

lemma verify_low_byte: "verifyInitData (JString payload_wide) demo_token"
proof -
  from verify_ok obtain kv h where ok: "parse_kv payload_ok = Inr kv"
      "map_of kv (js ''hash'') = Some h"
      "Buffer_from_hex h = hmac_sha256 (sha256 (utf8 demo_token)) (utf8 (data_check_string kv))"
    by (auto simp: verify_code_iff)
  from wide_like_ok ok obtain kv' h' where "parse_kv payload_wide = Inr kv'"
      "map_of kv' (js ''hash'') = Some h'" "h' \<noteq> []" "Buffer_from_hex h' = Buffer_from_hex h"
      "data_check_string kv' = data_check_string kv"
    by (auto split: sum.splits option.splits)
  then show ?thesis using ok by (auto simp: verify_code_iff)
qed

subsection \<open>Verification fails closed\<close>

text \<open>
  C5.  \<open>verifyInitData\<close> is a total function to the booleans: whatever is thrown in its
  \<open>try\<close> block, it returns false.  That covers each place where the block can throw: a
  payload that is not a string (TypeError), an entry whose value is not a
  percent-encoding (URIError), and a \<open>hash\<close> that does not decode to 32 bytes (the
  RangeError of \<open>timingSafeEqual\<close>).
\<close>

theorem verify_fails_closed:
  "(verifyInitData_try x tok = Inl e' \<longrightarrow> \<not> verifyInitData x tok)
   \<and> ((\<forall>s. x \<noteq> JString s) \<longrightarrow> \<not> verifyInitData x tok)
   \<and> (parse_kv s = Inl e \<longrightarrow> \<not> verifyInitData (JString s) tok)
   \<and> (parse_kv s' = Inr kv \<and> map_of kv (js ''hash'') = Some h \<and> length (Buffer_from_hex h) \<noteq> 32
        \<longrightarrow> \<not> verifyInitData (JString s') tok)"
proof (intro conjI impI)
  assume "verifyInitData_try x tok = Inl e'"
  then show "\<not> verifyInitData x tok" by (simp add: verifyInitData_def)
next
  assume "\<forall>s. x \<noteq> JString s"
  then show "\<not> verifyInitData x tok" using verify_not_string by (simp add: verifyInitData_def)
next
  assume "parse_kv s = Inl e"
  then show "\<not> verifyInitData (JString s) tok"
    by (simp add: verifyInitData_def verifyInitData_try_def)
next
  assume "parse_kv s' = Inr kv \<and> map_of kv (js ''hash'') = Some h \<and> length (Buffer_from_hex h) \<noteq> 32"
  then show "\<not> verifyInitData (JString s') tok"
    using length_hmac[of "sha256 (utf8 tok)" "utf8 (data_check_string kv)"]
    by (auto simp: verify_code_iff)
qed



theorem verify_fails_closed_witness:
  "verifyInitData_try (num 5) demo_token = Inl TypeError
   \<and> \<not> verifyInitData (num 5) demo_token
   \<and> parse_kv (js ''user=%7B%22id%22%3A42%7&hash=4c77'') = Inl URIError
   \<and> \<not> verifyInitData (JString (js ''user=%7B%22id%22%3A42%7&hash=4c77'')) demo_token
   \<and> parse_kv (js ''user=1&hash=4c77'') = Inr [(js ''user'', js ''1''), (js ''hash'', js ''4c77'')]
   \<and> length (Buffer_from_hex (js ''4c77'')) \<noteq> 32
   \<and> \<not> verifyInitData (JString (js ''user=1&hash=4c77'')) demo_token"
proof -
  have p1: "verifyInitData_try (num 5) demo_token = Inl TypeError" by code_simp
  have p2: "parse_kv (js ''user=%7B%22id%22%3A42%7&hash=4c77'') = Inl URIError" by code_simp
  have p3: "parse_kv (js ''user=1&hash=4c77'')
              = Inr [(js ''user'', js ''1''), (js ''hash'', js ''4c77'')]" by code_simp
  have p4: "map_of [(js ''user'', js ''1''), (js ''hash'', js ''4c77'')] (js ''hash'')
              = Some (js ''4c77'')" by code_simp
  have p5: "length (Buffer_from_hex (js ''4c77'')) \<noteq> 32" by code_simp
  show ?thesis
    using verify_fails_closed[of "num 5" demo_token TypeError
        "js ''user=%7B%22id%22%3A42%7&hash=4c77''" URIError "js ''user=1&hash=4c77''"
        "[(js ''user'', js ''1''), (js ''hash'', js ''4c77'')]" "js ''4c77''"]
      p1 p2 p3 p4 p5
    by blast
qed

subsection \<open>Which entries of a payload are parsed\<close>

lemma decode_error: "decodeURIComponent v = Inl e \<Longrightarrow> e = URIError"
  by (auto simp: decodeURIComponent_def split: option.splits)

lemma parse_params_entries:
  "parse_params ps kv =
     (if list_all (\<lambda>e. decodable (snd e)) (entries_of ps)
      then Inr (foldl (\<lambda>kv e. obj_set kv (fst e) (decoded (snd e))) kv (entries_of ps))
      else Inl URIError)"
proof (induction ps arbitrary: kv)
  case Nil
  then show ?case by (simp add: entries_of_def)
next
  case (Cons p ps)
  have e: "entries_of (p # ps) = (if entry_key p = [] then entries_of ps
                            else (entry_key p, entry_value p) # entries_of ps)"
    by (simp add: entries_of_def)
  show ?case
  proof (cases "entry_key p = []")
    case True
    then show ?thesis using Cons.IH[of kv] e by (simp add: entry_key_def)
  next
    case False
    show ?thesis
    proof (cases "decodeURIComponent (entry_value p)")
      case (Inl err)
      then have "err = URIError" by (rule decode_error)
      then show ?thesis using False Inl e
        by (simp add: entry_key_def entry_value_def decodable_def)
    next
      case (Inr d)
      then show ?thesis
        using False e Cons.IH[of "obj_set kv (entry_key p) d"]
        by (simp add: entry_key_def entry_value_def decodable_def decoded_def)
    qed
  qed
qed

lemma map_of_obj_set:
  "map_of (obj_set kv k v) = (if k = js ''__proto__'' then map_of kv else (map_of kv)(k \<mapsto> v))"
  by (simp add: obj_set_def map_of_assign)

lemma map_of_foldl_obj_set:
  "map_of (foldl (\<lambda>kv e. obj_set kv (fst e) (f (snd e))) kv es) k =
     (if k = js ''__proto__'' then map_of kv k
      else (case map_of (rev (map (\<lambda>e. (fst e, f (snd e))) es)) k of
              Some v \<Rightarrow> Some v | None \<Rightarrow> map_of kv k))"
proof (induction es arbitrary: kv)
  case Nil
  then show ?case by simp
next
  case (Cons e es)
  show ?case
    by (simp add: Cons.IH map_of_obj_set map_add_def split: option.splits)
qed

text \<open>
  C9, amended.  An entry with an empty key is skipped silently and the others are still
  parsed.  An entry without a value, or with an empty one, is not skipped: it is stored
  with the empty string as its value.  If the value of any entry with a non-empty key is
  not a valid percent-encoding, nothing is skipped: parsing throws and \<open>verifyInitData\<close>
  returns false.  Otherwise every key but \<open>__proto__\<close> is mapped to the decoded value of
  its last entry.
\<close>

theorem parse_kv_entries:
  "(if list_all (\<lambda>e. decodable (snd e)) (entries s)
    then \<exists>kv. parse_kv s = Inr kv \<and>
           (\<forall>k. map_of kv k =
                  (if k = js ''__proto__'' then None
                   else map_of (rev (map (\<lambda>e. (fst e, decoded (snd e))) (entries s))) k))
    else parse_kv s = Inl URIError \<and> (\<forall>tok. \<not> verifyInitData (JString s) tok))"
proof -
  have e: "entries s = entries_of (map (split_on 61) (split_on 38 s))"
    by (simp add: entries_def)
  show ?thesis
  proof (cases "list_all (\<lambda>e. decodable (snd e)) (entries s)")
    case True
    then have "parse_kv s = Inr (foldl (\<lambda>kv e. obj_set kv (fst e) (decoded (snd e))) [] (entries s))"
      using parse_params_entries[of "map (split_on 61) (split_on 38 s)" "[]"] e
      by (simp add: parse_kv_def)
    then show ?thesis using True
      by (auto simp: map_of_foldl_obj_set split: option.splits)
  next
    case False
    then have "parse_kv s = Inl URIError"
      using parse_params_entries[of "map (split_on 61) (split_on 38 s)" "[]"] e
      by (simp add: parse_kv_def)
    then show ?thesis using False
      by (simp add: verifyInitData_def verifyInitData_try_def)
  qed
qed

theorem parse_kv_entries_witness:
  "list_all (\<lambda>e. decodable (snd e)) (entries (js ''flag&=x&b=1&b=%32''))
   \<and> (\<exists>kv. parse_kv (js ''flag&=x&b=1&b=%32'') = Inr kv \<and>
           (\<forall>k. map_of kv k =
                  (if k = js ''__proto__'' then None
                   else map_of (rev (map (\<lambda>e. (fst e, decoded (snd e)))
                                      (entries (js ''flag&=x&b=1&b=%32'')))) k)))
   \<and> parse_kv (js ''flag&=x&b=1&b=%32'') = Inr [(js ''flag'', []), (js ''b'', js ''2'')]
   \<and> \<not> list_all (\<lambda>e. decodable (snd e)) (entries (js ''a=%&b=1''))
   \<and> parse_kv (js ''a=%&b=1'') = Inl URIError
   \<and> (\<forall>tok. \<not> verifyInitData (JString (js ''a=%&b=1'')) tok)"
proof -
  have a: "list_all (\<lambda>e. decodable (snd e)) (entries (js ''flag&=x&b=1&b=%32''))" by code_simp
  have b: "\<not> list_all (\<lambda>e. decodable (snd e)) (entries (js ''a=%&b=1''))" by code_simp
  have c: "parse_kv (js ''flag&=x&b=1&b=%32'') = Inr [(js ''flag'', []), (js ''b'', js ''2'')]"
    by code_simp
  show ?thesis
    using parse_kv_entries[of "js ''flag&=x&b=1&b=%32''"] parse_kv_entries[of "js ''a=%&b=1''"] a b c
    by simp
qed

text \<open>
  The claim as stated fails on an entry without a value, which stays in the map, and on
  an undecodable value, which leaves no map at all.
\<close>

theorem malformed_entries_counterexample:
  "parse_kv (js ''flag&b=1'') = Inr [(js ''flag'', []), (js ''b'', js ''1'')]
   \<and> claimed_parse (js ''flag&b=1'') = [(js ''b'', js ''1'')]
   \<and> parse_kv (js ''a=%&b=1'') = Inl URIError
   \<and> claimed_parse (js ''a=%&b=1'') = [(js ''b'', js ''1'')]"
  by code_simp

subsection \<open>Three signed payloads\<close>

lemma verify_zero: "verifyInitData (JString payload_zero) demo_token"
  by code_simp

lemma verify_abc: "verifyInitData (JString payload_abc) demo_token"
  by code_simp

lemma demo_env_token: "bot_token demo_env = demo_token" "bot_token demo_env \<noteq> []"
  by code_simp+

lemma request_initData: "get_prop (request p) (js ''initData'') = Inr (JString p)"
  by (simp add: request_def)

lemma user_data_cases:
  "user_data L x =
     (case map_of (parseInitData L x) (js ''user'') of
        None \<Rightarrow> JNull
      | Some (Multiple us) \<Rightarrow> JNull
      | Some (Single u) \<Rightarrow>
          if u = [] then JNull else (case JSON_parse L u of Inr v \<Rightarrow> v | Inl e \<Rightarrow> JNull))"
  by (simp add: user_data_def split: option.splits qs_value.splits)

lemma auth_post_400:
  assumes "get_prop req_body (js ''initData'') = Inr x" and "bot_token e \<noteq> []"
    and "verifyInitData x (bot_token e)"
    and "\<not> truthy (user_data L x) \<or> \<not> truthy (id_of (user_data L x))"
  shows "auth_post L S e rnd req_body d = (error_response 400 ''Invalid user data in initData'', d)"
  by (simp add: auth_post_verified[OF assms(1-3)] auth_user_400[OF assms(4)])

lemma auth_post_500:
  assumes "get_prop req_body (js ''initData'') = Inr x" and "bot_token e \<noteq> []"
    and "verifyInitData x (bot_token e)"
    and "truthy (user_data L x)" and "truthy (id_of (user_data L x))"
    and "BigInt L (id_of (user_data L x)) = Inl err"
  shows "auth_post L S e rnd req_body d = (error_response 500 ''Authentication failed'', d)"
  by (simp add: auth_post_verified[OF assms(1-3)] auth_user_500[OF assms(4-6)])

lemma abc_facts:
  "map_of (parseInitData demo_runtime (JString payload_abc)) (js ''user'')
     = Some (Single (js ''{\"id\":\"abc\"}''))"
  "js ''{\"id\":\"abc\"}'' \<noteq> []"
  "JSON_parse demo_runtime (js ''{\"id\":\"abc\"}'') = Inr (JObject [(js ''id'', JString (js ''abc''))])"
  "truthy (JObject [(js ''id'', JString (js ''abc''))])"
  "truthy (id_of (JObject [(js ''id'', JString (js ''abc''))]))"
  "BigInt demo_runtime (id_of (JObject [(js ''id'', JString (js ''abc''))])) = Inl SyntaxError"
  by code_simp+

lemma zero_facts:
  "map_of (parseInitData demo_runtime (JString payload_zero)) (js ''user'')
     = Some (Single (js ''{\"id\":0}''))"
  "JSON_parse demo_runtime (js ''{\"id\":0}'') = Inr (JObject [(js ''id'', num 0)])"
  "\<not> truthy (id_of (JObject [(js ''id'', num 0)]))"
  by code_simp+

subsection \<open>A user whose id is 0\<close>

text \<open>
  C10.  When the payload is validly signed and its \<open>user\<close> field parses to an object
  whose \<open>id\<close> is the number 0, the response is 400 with the error
  \<open>Invalid user data in initData\<close>, and the database is the one before, whatever the
  storage: \<open>!userData.id\<close> is true of 0 as it is of a missing id.
\<close>

theorem zero_id_rejected:
  assumes "get_prop req_body (js ''initData'') = Inr x" and "bot_token e \<noteq> []"
    and "verifyInitData x (bot_token e)"
    and "map_of (parseInitData L x) (js ''user'') = Some (Single u)"
    and "JSON_parse L u = Inr (JObject ps)"
    and "map_of ps (js ''id'') = Some (JNumber (Finite 0))"
  shows "auth_post L S e rnd req_body d = (error_response 400 ''Invalid user data in initData'', d)"
proof (rule auth_post_400[OF assms(1-3)])
  show "\<not> truthy (user_data L x) \<or> \<not> truthy (id_of (user_data L x))"
    using assms(4-6) by (simp add: user_data_cases id_of_def)
qed

theorem zero_id_rejected_witness:
  "get_prop (request payload_zero) (js ''initData'') = Inr (JString payload_zero)
   \<and> bot_token demo_env \<noteq> []
   \<and> verifyInitData (JString payload_zero) (bot_token demo_env)
   \<and> map_of (parseInitData demo_runtime (JString payload_zero)) (js ''user'')
       = Some (Single (js ''{\"id\":0}''))
   \<and> JSON_parse demo_runtime (js ''{\"id\":0}'') = Inr (JObject [(js ''id'', num 0)])
   \<and> map_of [(js ''id'', num 0)] (js ''id'') = Some (JNumber (Finite 0))
   \<and> auth_post demo_runtime mem_storage demo_env (0, 0) (request payload_zero) fresh_db
       = (error_response 400 ''Invalid user data in initData'', fresh_db)"
proof -
  have h1: "get_prop (request payload_zero) (js ''initData'') = Inr (JString payload_zero)"
    by (rule request_initData)
  have h2: "bot_token demo_env \<noteq> []" by (rule demo_env_token)
  have h3: "verifyInitData (JString payload_zero) (bot_token demo_env)"
    using verify_zero by (simp add: demo_env_token)
  have h4: "map_of (parseInitData demo_runtime (JString payload_zero)) (js ''user'')
       = Some (Single (js ''{\"id\":0}''))" by code_simp
  have h5: "JSON_parse demo_runtime (js ''{\"id\":0}'') = Inr (JObject [(js ''id'', num 0)])"
    by code_simp
  have h6: "map_of [(js ''id'', num 0)] (js ''id'') = Some (JNumber (Finite 0))" by code_simp
  show ?thesis
    using zero_id_rejected[OF h1 h2 h3 h4 h5 h6, of mem_storage "(0, 0)" fresh_db]
      h1 h2 h3 h4 h5 h6 by simp
qed

subsection \<open>A missing or malformed user field\<close>

text \<open>
  Claim C7.  What the handler answers to a validly signed payload.  The response is 400 if
  the \<open>user\<close> field is absent, occurs more than once, is empty, is rejected by
  \<open>JSON.parse\<close> (the handler has a \<open>try\<close> of its own around it), or parses to a value
  that is falsy or whose \<open>id\<close> is absent or falsy (the guard \<open>!userData || !userData.id\<close>).
  The guard does not ask whether the \<open>id\<close> is a number: when it is there and truthy but
  \<open>BigInt\<close> cannot convert it (a string that is no integer, a number that is not integral,
  an object), the conversion throws into the outer \<open>catch\<close> and the response is 500 with
  the error \<open>Authentication failed\<close>, where the claim and the handler's other paths for
  invalid user data answer 400.  This last case is a defect of the code.
\<close>

theorem user_field_rejections:
  assumes "get_prop req_body (js ''initData'') = Inr x" and "bot_token e \<noteq> []"
    and "verifyInitData x (bot_token e)"
  shows "(map_of (parseInitData L x) (js ''user'') = None \<longrightarrow>
            auth_post L S e rnd req_body d
              = (error_response 400 ''Invalid user data in initData'', d))
       \<and> (\<forall>us. map_of (parseInitData L x) (js ''user'') = Some (Multiple us) \<longrightarrow>
            auth_post L S e rnd req_body d
              = (error_response 400 ''Invalid user data in initData'', d))
       \<and> (\<forall>u err. map_of (parseInitData L x) (js ''user'') = Some (Single u)
                   \<and> (u = [] \<or> JSON_parse L u = Inl err) \<longrightarrow>
            auth_post L S e rnd req_body d
              = (error_response 400 ''Invalid user data in initData'', d))
       \<and> (\<forall>u v. map_of (parseInitData L x) (js ''user'') = Some (Single u)
                 \<and> JSON_parse L u = Inr v \<and> (\<not> truthy v \<or> \<not> truthy (id_of v)) \<longrightarrow>
            auth_post L S e rnd req_body d
              = (error_response 400 ''Invalid user data in initData'', d))
       \<and> (\<forall>u v err. map_of (parseInitData L x) (js ''user'') = Some (Single u) \<and> u \<noteq> []
                 \<and> JSON_parse L u = Inr v \<and> truthy v \<and> truthy (id_of v)
                 \<and> BigInt L (id_of v) = Inl err \<longrightarrow>
            auth_post L S e rnd req_body d
              = (error_response 500 ''Authentication failed'', d))"
proof (intro conjI allI impI)
  assume "map_of (parseInitData L x) (js ''user'') = None"
  then have "\<not> truthy (user_data L x)" by (simp add: user_data_cases)
  then show "auth_post L S e rnd req_body d
              = (error_response 400 ''Invalid user data in initData'', d)"
    by (intro auth_post_400[OF assms]) simp
next
  fix us assume "map_of (parseInitData L x) (js ''user'') = Some (Multiple us)"
  then have "\<not> truthy (user_data L x)" by (simp add: user_data_cases)
  then show "auth_post L S e rnd req_body d
              = (error_response 400 ''Invalid user data in initData'', d)"
    by (intro auth_post_400[OF assms]) simp
next
  fix u err assume "map_of (parseInitData L x) (js ''user'') = Some (Single u)
                   \<and> (u = [] \<or> JSON_parse L u = Inl err)"
  then have "\<not> truthy (user_data L x)" by (auto simp: user_data_cases)
  then show "auth_post L S e rnd req_body d
              = (error_response 400 ''Invalid user data in initData'', d)"
    by (intro auth_post_400[OF assms]) simp
next
  fix u v assume "map_of (parseInitData L x) (js ''user'') = Some (Single u)
                 \<and> JSON_parse L u = Inr v \<and> (\<not> truthy v \<or> \<not> truthy (id_of v))"
  then have "\<not> truthy (user_data L x) \<or> \<not> truthy (id_of (user_data L x))"
    by (auto simp: user_data_cases)
  then show "auth_post L S e rnd req_body d
              = (error_response 400 ''Invalid user data in initData'', d)"
    by (rule auth_post_400[OF assms])
next
  fix u v err assume h: "map_of (parseInitData L x) (js ''user'') = Some (Single u) \<and> u \<noteq> []
                 \<and> JSON_parse L u = Inr v \<and> truthy v \<and> truthy (id_of v)
                 \<and> BigInt L (id_of v) = Inl err"
  then have "user_data L x = v" by (simp add: user_data_cases)
  then show "auth_post L S e rnd req_body d
              = (error_response 500 ''Authentication failed'', d)"
    using h by (intro auth_post_500[OF assms, of L err]) simp_all
qed

theorem user_field_rejections_witness:
  "verifyInitData (JString payload_zero) (bot_token demo_env)
   \<and> auth_post demo_runtime mem_storage demo_env (0, 0) (request payload_zero) fresh_db
       = (error_response 400 ''Invalid user data in initData'', fresh_db)
   \<and> verifyInitData (JString payload_abc) (bot_token demo_env)
   \<and> BigInt demo_runtime (id_of (JObject [(js ''id'', JString (js ''abc''))])) = Inl SyntaxError
   \<and> auth_post demo_runtime mem_storage demo_env (0, 0) (request payload_abc) fresh_db
       = (error_response 500 ''Authentication failed'', fresh_db)"
proof -
  have z: "verifyInitData (JString payload_zero) (bot_token demo_env)"
    using verify_zero by (simp add: demo_env_token)
  have a: "verifyInitData (JString payload_abc) (bot_token demo_env)"
    using verify_abc by (simp add: demo_env_token)
  note tz = user_field_rejections[OF request_initData demo_env_token(2) z,
      of demo_runtime mem_storage "(0, 0)" fresh_db]
  note ta = user_field_rejections[OF request_initData demo_env_token(2) a,
      of demo_runtime mem_storage "(0, 0)" fresh_db]
  have 1: "auth_post demo_runtime mem_storage demo_env (0, 0) (request payload_zero) fresh_db
       = (error_response 400 ''Invalid user data in initData'', fresh_db)"
    using tz zero_facts by blast
  have 2: "auth_post demo_runtime mem_storage demo_env (0, 0) (request payload_abc) fresh_db
       = (error_response 500 ''Authentication failed'', fresh_db)"
    using ta abc_facts by blast
  show ?thesis using z a 1 2 abc_facts(6) by simp
qed

text \<open>The failing input: a signed payload whose user is \<open>{"id":"abc"}\<close> is answered 500, not 400.\<close>

theorem non_numeric_id_counterexample:
  "verifyInitData (JString payload_abc) demo_token
   \<and> user_data demo_runtime (JString payload_abc) = JObject [(js ''id'', JString (js ''abc''))]
   \<and> res_status (fst (auth_post demo_runtime mem_storage demo_env (0, 0)
                        (request payload_abc) fresh_db)) = 500"
proof -
  have a: "verifyInitData (JString payload_abc) (bot_token demo_env)"
    using verify_abc by (simp add: demo_env_token)
  have u: "user_data demo_runtime (JString payload_abc) = JObject [(js ''id'', JString (js ''abc''))]"
    using abc_facts(1-3) by (simp add: user_data_cases)
  have "auth_post demo_runtime mem_storage demo_env (0, 0) (request payload_abc) fresh_db
       = (error_response 500 ''Authentication failed'', fresh_db)"
    using abc_facts(4-6) by (intro auth_post_500[OF request_initData demo_env_token(2) a]) (simp_all add: u)
  then show ?thesis using verify_abc u by simp
qed

subsection \<open>The body of a successful sign-in\<close>

text \<open>A first and a repeated sign-in with \<open>payload_ok\<close> against the in-memory store.\<close>

lemma ok_post:
  "auth_post demo_runtime mem_storage demo_env rnd (request payload_ok) d =
     (case auth_user demo_runtime mem_storage rnd (JString payload_ok) d of
        (Inr res, d') \<Rightarrow> (res, d')
      | (Inl err, d') \<Rightarrow> (error_response 500 ''Authentication failed'', d'))"
  using verify_ok
  by (intro auth_post_verified[OF request_initData demo_env_token(2)]) (simp add: demo_env_token)

lemma ok_first:
  "auth_user demo_runtime mem_storage (3821, 2) (JString payload_ok) fresh_db
     = (Inr (auth_ok alice), alice_db)"
  by code_simp


text \<open>
  How a request succeeds: the external identity is a \<open>BigInt\<close>, and the user in the answer
  is either the one the lookup found or the one a single \<open>createUser\<close> returned.
\<close>

lemma auth_user_success:
  assumes "auth_user L S rnd x d = (Inr res, d')" and "res_status res = 200"
  shows "\<exists>t u. BigInt L (id_of (user_data L x)) = Inr t \<and> res = auth_ok u \<and>
           (getUserByTgId S t d = (Inr (Some u), d')
            \<or> (\<exists>d0 f. getUserByTgId S t d = (Inr None, d0) \<and> new_tgId f = t
                  \<and> createUser S f d0 = (Inr u, d')))"
proof -
  let ?v = "id_of (user_data L x)"
  have ok: "truthy (user_data L x)" "truthy ?v"
    using assms by (auto simp: auth_user_def Let_def ret_def split: if_splits)
  obtain t where t: "BigInt L ?v = Inr t"
    using assms ok by (cases "BigInt L ?v") (auto simp: auth_user_def Let_def bind_lift_db)
  define f where "f = \<lparr>new_tgId = t,
       new_username = (case get_prop (user_data L x) (js ''username'') of
                         Inr n \<Rightarrow> if truthy n then n else JNull | Inl x \<Rightarrow> JNull),
       new_anonName = generateAnonName (fst rnd) (snd rnd), new_status = js ''pending''\<rparr>"
  have run: "auth_user L S rnd x d =
      bind_io (getUserByTgId S t) (\<lambda>found.
        bind_io (case found of Some u \<Rightarrow> ret u | None \<Rightarrow> createUser S f)
          (\<lambda>u. ret (auth_ok u))) d"
    unfolding f_def using ok t by (simp add: auth_user_def Let_def bind_lift_db)
  obtain r0 d0 where g: "getUserByTgId S t d = (r0, d0)" by (cases "getUserByTgId S t d")
  show ?thesis
  proof (cases r0)
    case (Inl err)
    then show ?thesis using assms(1) run g by (simp add: bind_io_def)
  next
    case (Inr found)
    show ?thesis
    proof (cases found)
      case (Some u)
      then have "res = auth_ok u \<and> d' = d0"
        using assms(1) run g Inr by (simp add: bind_io_def ret_def)
      then show ?thesis using t g Inr Some by auto
    next
      case None
      obtain r1 d1 where c: "createUser S f d0 = (r1, d1)" by (cases "createUser S f d0")
      show ?thesis
      proof (cases r1)
        case (Inl err)
        then show ?thesis using assms(1) run g Inr None c by (simp add: bind_io_def)
      next
        case (Inr u)
        then have "res = auth_ok u \<and> d' = d1"
          using assms(1) run g \<open>r0 = Inr found\<close> None c by (simp add: bind_io_def ret_def)
        moreover have "new_tgId f = t" by (simp add: f_def)
        ultimately show ?thesis using t g \<open>r0 = Inr found\<close> None c Inr by auto
      qed
    qed
  qed
qed

lemma auth_post_success:
  assumes "auth_post L S e rnd req_body d = (res, d')" and "res_status res = 200"
  shows "\<exists>t u. external_id L req_body = Inr t \<and> res = auth_ok u \<and>
           (getUserByTgId S t d = (Inr (Some u), d')
            \<or> (\<exists>d0 f. getUserByTgId S t d = (Inr None, d0) \<and> new_tgId f = t
                  \<and> createUser S f d0 = (Inr u, d')))"
proof -
  obtain r d1 where t: "auth_try L S e rnd req_body d = (r, d1)"
    by (cases "auth_try L S e rnd req_body d")
  show ?thesis
  proof (cases r)
    case (Inl err)
    then show ?thesis using assms t by (auto simp: auth_post_def)
  next
    case (Inr res')
    then have eq: "res' = res" "d1 = d'" using assms t by (simp_all add: auth_post_def)
    obtain x where x: "get_prop req_body (js ''initData'') = Inr x"
      and u: "auth_user L S rnd x d = (Inr res, d')"
      using t Inr eq assms(2)
      by (auto simp: auth_try_def bind_lift_db ret_def Let_def split: sum.splits if_splits)
    show ?thesis using auth_user_success[OF u assms(2)] x by (simp add: external_id_def)
  qed
qed

text \<open>
  Claim C8.  Every response of \<open>POST /api/auth\<close> with status 200 is built from one user
  record: the one the store returned for the external identity of the request, found by
  \<open>getUserByTgId\<close> or else returned by \<open>createUser\<close>.  The body has exactly the properties
  \<open>user\<close> and \<open>status\<close>; \<open>user\<close> has exactly \<open>id\<close>, \<open>anonName\<close>, \<open>status\<close> and \<open>createdAt\<close>,
  holding the record's internal id, anonymous name, status and creation time, and \<open>status\<close>
  holds the record's status.  Nothing else is in the body: neither the record's \<open>tgId\<close> or
  \<open>username\<close> nor anything of the request.
\<close>

theorem auth_success_body:
  assumes "auth_post L S e rnd req_body d = (res, d')" and "res_status res = 200"
  shows "\<exists>t u. external_id L req_body = Inr t
           \<and> (getUserByTgId S t d = (Inr (Some u), d')
                \<or> (\<exists>d0 f. getUserByTgId S t d = (Inr None, d0) \<and> new_tgId f = t
                      \<and> createUser S f d0 = (Inr u, d')))
           \<and> res_body res =
               JObject [(js ''user'',
                         JObject [(js ''id'', num (user_id u)),
                                  (js ''anonName'', JString (anonName u)),
                                  (js ''status'', JString (status u)),
                                  (js ''createdAt'', user_createdAt u)]),
                        (js ''status'', JString (status u))]"
proof -
  from auth_post_success[OF assms] obtain t u where
    t: "external_id L req_body = Inr t" and r: "res = auth_ok u" and
    s: "getUserByTgId S t d = (Inr (Some u), d')
          \<or> (\<exists>d0 f. getUserByTgId S t d = (Inr None, d0) \<and> new_tgId f = t
                \<and> createUser S f d0 = (Inr u, d'))" by blast
  have "res_body res =
               JObject [(js ''user'',
                         JObject [(js ''id'', num (user_id u)),
                                  (js ''anonName'', JString (anonName u)),
                                  (js ''status'', JString (status u)),
                                  (js ''createdAt'', user_createdAt u)]),
                        (js ''status'', JString (status u))]"
    by (simp add: r auth_ok_def)
  with t s show ?thesis by blast
qed

lemma alice_body:
  "res_body (auth_ok alice) =
     JObject [(js ''user'',
               JObject [(js ''id'', num 1), (js ''anonName'', JString (js ''Guest4821'')),
                        (js ''status'', JString (js ''pending'')),
                        (js ''createdAt'', JDate 0)]),
              (js ''status'', JString (js ''pending''))]"
  "tgId alice = 42"
  by (simp_all add: auth_ok_def alice_def)

theorem auth_success_body_witness:
  "auth_post demo_runtime mem_storage demo_env (3821, 2) (request payload_ok) fresh_db
     = (auth_ok alice, alice_db)
   \<and> res_status (auth_ok alice) = 200
   \<and> external_id demo_runtime (request payload_ok) = Inr 42
   \<and> tgId alice = 42
   \<and> res_body (auth_ok alice) =
       JObject [(js ''user'',
                 JObject [(js ''id'', num 1), (js ''anonName'', JString (js ''Guest4821'')),
                          (js ''status'', JString (js ''pending'')),
                          (js ''createdAt'', JDate 0)]),
                (js ''status'', JString (js ''pending''))]
   \<and> (\<exists>t u. external_id demo_runtime (request payload_ok) = Inr t
           \<and> (getUserByTgId mem_storage t fresh_db = (Inr (Some u), alice_db)
                \<or> (\<exists>d0 f. getUserByTgId mem_storage t fresh_db = (Inr None, d0) \<and> new_tgId f = t
                      \<and> createUser mem_storage f d0 = (Inr u, alice_db)))
           \<and> res_body (auth_ok alice) =
               JObject [(js ''user'',
                         JObject [(js ''id'', num (user_id u)),
                                  (js ''anonName'', JString (anonName u)),
                                  (js ''status'', JString (status u)),
                                  (js ''createdAt'', user_createdAt u)]),
                        (js ''status'', JString (status u))])"
proof -
  have h1: "auth_post demo_runtime mem_storage demo_env (3821, 2)
              (request payload_ok) fresh_db = (auth_ok alice, alice_db)"
    by (simp add: ok_post ok_first)
  have h2: "res_status (auth_ok alice) = 200" by (simp add: auth_ok_def)
  have x: "external_id demo_runtime (request payload_ok) = Inr 42" by code_simp
  show ?thesis using auth_success_body[OF h1 h2] h1 h2 x alice_body by blast
qed

subsection \<open>Repeated sign-in\<close>





section \<open>The chat history on authentication\<close>

text \<open>
  The frames of a successful \<open>handleAuth\<close>, for every storage; then what the in-memory
  store returns as the history, and that writing a message keeps the store chronological.
\<close>

lemma handleAuth_approved:
  assumes "get_prop msg (js ''userId'') = Inr v" and "truthy v"
    and "getUserById S v (db w) = (Inr (Some u), d1)" and "status u = js ''approved''"
    and "getOrCreateGlobalRoom S d1 = (Inr g, d2)"
    and "getMessagesByRoomId S (room_id g) 50 d2 = (Inr ms, d3)"
  shows "handleAuth S i msg w =
           send_to i (chat_history ms) (send_to i (auth_success u g)
             (w\<lparr>clients := (clients w)[i := (clients w ! i)
                  \<lparr>userId := Some (user_id u), userStatus := Some (status u)\<rparr>], db := d3\<rparr>))"
proof -
  have "handleAuth_try S i msg w =
          (Inr (), send_to i (chat_history ms) (send_to i (auth_success u g)
             (w\<lparr>clients := (clients w)[i := (clients w ! i)
                  \<lparr>userId := Some (user_id u), userStatus := Some (status u)\<rparr>], db := d3\<rparr>)))"
    using assms
    by (simp add: handleAuth_try_def bind_lift bind_storage bind_set_user bind_send)
       (simp add: send_def)
  then show ?thesis by (simp add: handleAuth_def try_catch_def)
qed

lemma delivered_two:
  assumes "i < length (clients w)"
  shows "delivered w (send_to i b (send_to i a
           (w\<lparr>clients := (clients w)[i := (clients w ! i)\<lparr>userId := x, userStatus := y\<rparr>], db := d\<rparr>))) i
         = [a, b]"
  using assms by (simp add: delivered_def send_to_def ws_send_def)

lemma mem_found_truthy:
  assumes "getUserById mem_storage v d = (Inr (Some u), d')"
  shows "truthy v \<and> d' = d"
  using assms
  by (auto simp: mem_storage_def mem_getUserById_def row_user_def num_def
      split: jsval.splits jsnum.splits if_splits)

lemma sorted_drop_filter:
  "sorted (map f xs) \<Longrightarrow> sorted (map f (drop k (filter P xs)))"
  by (simp add: sorted_wrt_drop sorted_wrt_filter sorted_map drop_map[symmetric])

lemma stamp_join_user [simp]: "stamp (join_user d m) = stamp m"
  by (simp add: stamp_def join_user_def)

lemma mem_history:
  assumes "getMessagesByRoomId mem_storage r 50 d = (res, d')" and "chronological d"
  shows "\<exists>ms k. res = Inr ms \<and> d' = d \<and> length ms \<le> 50 \<and> sorted (map stamp ms)
           \<and> map stamp ms =
               drop k (map stamp (filter (\<lambda>m. message_roomId m = num r) (messages d)))"
proof -
  let ?xs = "filter (\<lambda>m. message_roomId m = num r) (messages d)"
  let ?ms = "map (join_user d) (drop (length ?xs - 50) ?xs)"
  have r: "res = Inr ?ms" "d' = d"
    using assms(1) by (auto simp: mem_storage_def mem_getMessagesByRoomId_def Let_def)
  have 1: "length ?ms \<le> 50" by simp
  have m: "map stamp ?ms = map stamp (drop (length ?xs - 50) ?xs)" by (simp add: comp_def)
  have 2: "sorted (map stamp ?ms)"
    unfolding m using assms(2) by (intro sorted_drop_filter) (simp add: chronological_def)
  have 3: "map stamp ?ms = drop (length ?xs - 50) (map stamp ?xs)"
    unfolding m by (simp add: drop_map)
  show ?thesis using r 1 2 3 by blast
qed

lemma mem_room:
  "\<exists>g d'. getOrCreateGlobalRoom mem_storage d = (Inr g, d') \<and> global_room d' = Some g
      \<and> messages d' = messages d \<and> clock d' = clock d"
  by (auto simp: mem_storage_def mem_getOrCreateGlobalRoom_def split: option.splits)

lemma chronological_createMessage:
  assumes "chronological d" and "createMessage mem_storage f d = (r, d')"
  shows "chronological d'"
proof -
  define m where "m = \<lparr>message_id = int (length (messages d)) + 1, content = new_content f,
               message_userId = new_userId f, message_roomId = new_roomId f,
               message_createdAt = JDate (clock d), message_user = None\<rparr>"
  have d': "messages d' = messages d @ [m]" "clock d' = clock d + 1"
    using assms(2) by (auto simp: mem_storage_def mem_createMessage_def Let_def m_def)
  have old: "dated (clock d) x" if "x \<in> set (messages d)" for x
    using assms(1) that by (simp add: chronological_def list_all_iff)
  have le: "stamp x \<le> clock d" if "x \<in> set (messages d)" for x
    using old[OF that] by (auto simp: dated_def stamp_def split: jsval.splits)
  have mono: "dated (clock d + 1) x" if "x \<in> set (messages d)" for x
    using old[OF that] by (auto simp: dated_def split: jsval.splits)
  have a: "list_all (dated (clock d + 1)) (messages d @ [m])"
    using mono by (simp add: list_all_iff dated_def m_def)
  have b: "sorted (map stamp (messages d @ [m]))"
    using assms(1) le by (auto simp: chronological_def sorted_append stamp_def m_def)
  show ?thesis using a b by (simp add: chronological_def d')
qed

subsection \<open>The frames of an approved authentication\<close>

lemma handleAuth_room_fails:
  assumes "get_prop msg (js ''userId'') = Inr v" and "truthy v"
    and "getUserById S v (db w) = (Inr (Some u), d1)" and "status u = js ''approved''"
    and "getOrCreateGlobalRoom S d1 = (Inl err, d2)"
  shows "handleAuth S i msg w =
           send_to i (event ''auth_error'' ''Authentication failed'')
             (w\<lparr>clients := (clients w)[i := (clients w ! i)
                  \<lparr>userId := Some (user_id u), userStatus := Some (status u)\<rparr>], db := d2\<rparr>)"
  using assms
  by (simp add: handleAuth_def handleAuth_try_def try_catch_def bind_lift bind_storage
      bind_set_user)

lemma handleAuth_history_fails:
  assumes "get_prop msg (js ''userId'') = Inr v" and "truthy v"
    and "getUserById S v (db w) = (Inr (Some u), d1)" and "status u = js ''approved''"
    and "getOrCreateGlobalRoom S d1 = (Inr g, d2)"
    and "getMessagesByRoomId S (room_id g) 50 d2 = (Inl err, d3)"
  shows "handleAuth S i msg w =
           send_to i (event ''auth_error'' ''Authentication failed'')
             (w\<lparr>clients := (clients w)[i := (clients w ! i)
                  \<lparr>userId := Some (user_id u), userStatus := Some (status u)\<rparr>], db := d3\<rparr>)"
  using assms
  by (simp add: handleAuth_def handleAuth_try_def try_catch_def bind_lift bind_storage
      bind_set_user)

lemma delivered_one:
  assumes "i < length (clients w)"
  shows "delivered w (send_to i a
           (w\<lparr>clients := (clients w)[i := (clients w ! i)\<lparr>userId := x, userStatus := y\<rparr>], db := d\<rparr>)) i
         = [a]"
  using assms by (simp add: delivered_def send_to_def ws_send_def)

lemma session_one:
  assumes "i < length (clients w)"
  shows "userId (clients (send_to i a
           (w\<lparr>clients := (clients w)[i := (clients w ! i)\<lparr>userId := x, userStatus := y\<rparr>], db := d\<rparr>)) ! i) = x
       \<and> userStatus (clients (send_to i a
           (w\<lparr>clients := (clients w)[i := (clients w ! i)\<lparr>userId := x, userStatus := y\<rparr>], db := d\<rparr>)) ! i) = y"
  using assms by (simp add: send_to_def ws_send_def)

lemma session_two:
  assumes "i < length (clients w)"
  shows "userId (clients (send_to i b (send_to i a
           (w\<lparr>clients := (clients w)[i := (clients w ! i)\<lparr>userId := x, userStatus := y\<rparr>], db := d\<rparr>))) ! i) = x
       \<and> userStatus (clients (send_to i b (send_to i a
           (w\<lparr>clients := (clients w)[i := (clients w ! i)\<lparr>userId := x, userStatus := y\<rparr>], db := d\<rparr>))) ! i) = y"
  using assms by (simp add: send_to_def ws_send_def)

lemma history_facts:
  "getUserById mem_storage (num 1) history_db
     = (Inr (Some ((demo_user 42 ''Guest4821'' ''approved'')\<lparr>user_id := 1\<rparr>)), history_db)"
  "getOrCreateGlobalRoom mem_storage history_db = (Inr \<lparr>room_id = 1\<rparr>, history_db)"
  "getMessagesByRoomId mem_storage 1 50 history_db
     = (Inr (map (\<lambda>k. (posted k)\<lparr>message_user :=
            Some ((demo_user 42 ''Guest4821'' ''approved'')\<lparr>user_id := 1\<rparr>)\<rparr>) [3..52]), history_db)"
  "getUserById history_down (num 1) history_db
     = (Inr (Some ((demo_user 42 ''Guest4821'' ''approved'')\<lparr>user_id := 1\<rparr>)), history_db)"
  by code_simp+

text \<open>
  Claim C6, as the code has it.  An \<open>auth\<close> message on a connected session that names, by
  a truthy \<open>userId\<close>, an existing user whose status is \<open>approved\<close>, for every storage.  The
  session is bound to the user.  If \<open>getOrCreateGlobalRoom\<close> and then
  \<open>getMessagesByRoomId(room id, 50)\<close> return, the session is sent exactly two frames:
  first \<open>auth_success\<close> with the user's id, anonymous name and status and the room's id,
  then \<open>chat_history\<close>, whose \<open>messages\<close> are the rows that call returned, one entry for
  each row and in the order returned.  So the history has at most 50 messages in
  ascending order of time as far as the store honours the limit and the order asked of
  it.  If either call throws, the session is sent one frame only, \<open>auth_error\<close> with the
  message \<open>Authentication failed\<close>.
\<close>

theorem auth_approved_frames:
  fixes S :: "'db storage"
  assumes "i < length (clients w)"
    and "get_prop msg (js ''userId'') = Inr v" and "truthy v"
    and "getUserById S v (db w) = (Inr (Some u), d1)"
    and "status u = js ''approved''"
  shows "delivered w (handleAuth S i msg w) i =
     (case getOrCreateGlobalRoom S d1 of
        (Inl err, d2) \<Rightarrow>
          [JObject [(js ''type'', JString (js ''auth_error'')),
                    (js ''message'', JString (js ''Authentication failed''))]]
      | (Inr g, d2) \<Rightarrow>
          (case getMessagesByRoomId S (room_id g) 50 d2 of
             (Inl err, d3) \<Rightarrow>
               [JObject [(js ''type'', JString (js ''auth_error'')),
                         (js ''message'', JString (js ''Authentication failed''))]]
           | (Inr ms, d3) \<Rightarrow>
               [JObject [(js ''type'', JString (js ''auth_success'')),
                         (js ''user'',
                          JObject [(js ''id'', num (user_id u)),
                                   (js ''anonName'', JString (anonName u)),
                                   (js ''status'', JString (status u))]),
                         (js ''roomId'', num (room_id g))],
                JObject [(js ''type'', JString (js ''chat_history'')),
                         (js ''messages'',
                          JArray (map (\<lambda>m.
                            JObject [(js ''id'', num (message_id m)),
                                     (js ''content'', JString (content m)),
                                     (js ''createdAt'', message_createdAt m),
                                     (js ''user'',
                                      case message_user m of
                                        Some a \<Rightarrow> JObject [(js ''id'', num (user_id a)),
                                                            (js ''anonName'', JString (anonName a))]
                                      | None \<Rightarrow> JNull)]) ms))]]))
     \<and> userId (clients (handleAuth S i msg w) ! i) = Some (user_id u)
     \<and> userStatus (clients (handleAuth S i msg w) ! i) = Some (js ''approved'')"
proof -
  obtain r2 d2 where g: "getOrCreateGlobalRoom S d1 = (r2, d2)"
    by (cases "getOrCreateGlobalRoom S d1")
  show ?thesis
  proof (cases r2)
    case (Inl err)
    show ?thesis
      unfolding handleAuth_room_fails[OF assms(2-5) g[unfolded Inl]] delivered_one[OF assms(1)]
      using session_one[OF assms(1)] by (simp add: g Inl event_def assms(5))
  next
    case (Inr room)
    obtain r3 d3 where h: "getMessagesByRoomId S (room_id room) 50 d2 = (r3, d3)"
      by (cases "getMessagesByRoomId S (room_id room) 50 d2")
    show ?thesis
    proof (cases r3)
      case (Inl err)
      show ?thesis
        unfolding handleAuth_history_fails[OF assms(2-5) g[unfolded Inr] h[unfolded Inl]]
          delivered_one[OF assms(1)]
        using session_one[OF assms(1)] by (simp add: g Inr h Inl event_def assms(5))
    next
      case ms: (Inr ms)
      show ?thesis
        unfolding handleAuth_approved[OF assms(2-5) g[unfolded Inr] h[unfolded ms]]
          delivered_two[OF assms(1)]
        using session_two[OF assms(1)]
        by (simp add: g Inr h ms auth_success_def chat_history_def message_view_def assms(5))
    qed
  qed
qed

theorem auth_approved_frames_witness:
  "(0::nat) < length (clients history_world)
   \<and> get_prop auth_1 (js ''userId'') = Inr (num 1) \<and> truthy (num 1)
   \<and> getUserById mem_storage (num 1) (db history_world)
       = (Inr (Some ((demo_user 42 ''Guest4821'' ''approved'')\<lparr>user_id := 1\<rparr>)), history_db)
   \<and> status ((demo_user 42 ''Guest4821'' ''approved'')\<lparr>user_id := 1\<rparr>) = js ''approved''
   \<and> length (messages (db history_world)) = 52
   \<and> delivered history_world (handleAuth mem_storage 0 auth_1 history_world) 0 =
       [JObject [(js ''type'', JString (js ''auth_success'')),
                 (js ''user'',
                  JObject [(js ''id'', num 1), (js ''anonName'', JString (js ''Guest4821'')),
                           (js ''status'', JString (js ''approved''))]),
                 (js ''roomId'', num 1)],
        JObject [(js ''type'', JString (js ''chat_history'')),
                 (js ''messages'',
                  JArray (map (\<lambda>k.
                    JObject [(js ''id'', num k), (js ''content'', JString (js ''hi'')),
                             (js ''createdAt'', JDate k),
                             (js ''user'',
                              JObject [(js ''id'', num 1),
                                       (js ''anonName'', JString (js ''Guest4821''))])])
                    [3..52]))]]"
proof -
  let ?u = "(demo_user 42 ''Guest4821'' ''approved'')\<lparr>user_id := 1\<rparr>"
  have h1: "(0::nat) < length (clients history_world)" by (simp add: history_world_def)
  have h2: "get_prop auth_1 (js ''userId'') = Inr (num 1)" by code_simp
  have h3: "truthy (num 1)" by code_simp
  have h4: "getUserById mem_storage (num 1) (db history_world) = (Inr (Some ?u), history_db)"
    using history_facts(1) by (simp add: history_world_def)
  have h5: "status ?u = js ''approved''" by (simp add: demo_user_def)
  have n: "length (messages (db history_world)) = 52"
    by (simp add: history_world_def history_db_def)
  have "delivered history_world (handleAuth mem_storage 0 auth_1 history_world) 0 =
       [JObject [(js ''type'', JString (js ''auth_success'')),
                 (js ''user'',
                  JObject [(js ''id'', num 1), (js ''anonName'', JString (js ''Guest4821'')),
                           (js ''status'', JString (js ''approved''))]),
                 (js ''roomId'', num 1)],
        JObject [(js ''type'', JString (js ''chat_history'')),
                 (js ''messages'',
                  JArray (map (\<lambda>k.
                    JObject [(js ''id'', num k), (js ''content'', JString (js ''hi'')),
                             (js ''createdAt'', JDate k),
                             (js ''user'',
                              JObject [(js ''id'', num 1),
                                       (js ''anonName'', JString (js ''Guest4821''))])])
                    [3..52]))]]"
    using auth_approved_frames[OF h1 h2 h3 h4 h5]
    by (simp add: history_facts(2,3) demo_user_def posted_def comp_def)
  then show ?thesis using h1 h2 h3 h4 h5 n by simp
qed

text \<open>
  The claim as stated fails when the history cannot be read: the user exists and is
  approved, the session is bound as approved, and the only frame is \<open>auth_error\<close>.
\<close>

theorem history_lookup_fails_counterexample:
  "getUserById history_down (num 1) (db history_world)
     = (Inr (Some ((demo_user 42 ''Guest4821'' ''approved'')\<lparr>user_id := 1\<rparr>)), history_db)
   \<and> status ((demo_user 42 ''Guest4821'' ''approved'')\<lparr>user_id := 1\<rparr>) = js ''approved''
   \<and> delivered history_world (handleAuth history_down 0 auth_1 history_world) 0 =
       [JObject [(js ''type'', JString (js ''auth_error'')),
                 (js ''message'', JString (js ''Authentication failed''))]]
   \<and> userStatus (clients (handleAuth history_down 0 auth_1 history_world) ! 0)
       = Some (js ''approved'')"
  by code_simp

end
